theory Spec2Isabelle
  imports Main "HOL-Library.Product_Lexorder"
begin

section \<open>Python values and strings\<close>

text \<open>
  The phenotyper is dynamically typed Python. A Python \<^verbatim>\<open>str\<close> is modelled as an
  Isabelle \<open>string\<close> with one \<open>char\<close> per code point, so the model covers the code
  points 0 to 255 (Latin-1); the character classes below are Python's on that range.
  A float is modelled by what the code observes of it: \<^verbatim>\<open>v.is_integer()\<close>,
  \<^verbatim>\<open>int(v)\<close> and \<^verbatim>\<open>str(v)\<close>.
\<close>

datatype pyfloat = PyFloat (f_is_integer: bool) (f_int: int) (f_str: string)

datatype pyval = VNone | VStr string | VInt int | VFloat pyfloat

definition isspace :: "char \<Rightarrow> bool" where
  "isspace c = (let n = (of_char c :: nat) in
     (9 \<le> n \<and> n \<le> 13) \<or> (28 \<le> n \<and> n \<le> 32) \<or> n = 133 \<or> n = 160)"

definition isdigit :: "char \<Rightarrow> bool" where
  "isdigit c = (let n = (of_char c :: nat) in 48 \<le> n \<and> n \<le> 57)"

definition isword :: "char \<Rightarrow> bool" where
  "isword c = (let n = (of_char c :: nat) in
     (48 \<le> n \<and> n \<le> 57) \<or> (65 \<le> n \<and> n \<le> 90) \<or> n = 95 \<or> (97 \<le> n \<and> n \<le> 122) \<or>
     n = 170 \<or> n = 178 \<or> n = 179 \<or> n = 181 \<or> n = 185 \<or> n = 186 \<or>
     (188 \<le> n \<and> n \<le> 190) \<or> (192 \<le> n \<and> n \<le> 214) \<or> (216 \<le> n \<and> n \<le> 246) \<or>
     248 \<le> n)"

definition lower_char :: "char \<Rightarrow> char" where
  "lower_char c = (let n = (of_char c :: nat) in
     if (65 \<le> n \<and> n \<le> 90) \<or> (192 \<le> n \<and> n \<le> 222 \<and> n \<noteq> 215) then char_of (n + 32) else c)"

definition upper_char :: "char \<Rightarrow> char" where
  \<comment> \<open>\<^verbatim>\<open>str.upper\<close> on the characters whose upper case stays in Latin-1 as one character\<close>
  "upper_char c = (let n = (of_char c :: nat) in
     if (97 \<le> n \<and> n \<le> 122) \<or> (224 \<le> n \<and> n \<le> 254 \<and> n \<noteq> 247) then char_of (n - 32) else c)"

definition lower :: "string \<Rightarrow> string" where
  "lower s = map lower_char s"

definition upper :: "string \<Rightarrow> string" where
  "upper s = map upper_char s"

definition strip :: "string \<Rightarrow> string" where
  "strip s = rev (dropWhile isspace (rev (dropWhile isspace s)))"

fun startswith :: "string \<Rightarrow> string \<Rightarrow> bool" where
  "startswith s [] = True"
| "startswith [] (p # ps) = False"
| "startswith (c # cs) (p # ps) = (c = p \<and> startswith cs ps)"

definition endswith :: "string \<Rightarrow> string \<Rightarrow> bool" where
  "endswith s suf = startswith (rev s) (rev suf)"

text \<open>\<^verbatim>\<open>sub in s\<close> on strings: \<open>sub\<close> occurs in \<open>s\<close> as a contiguous substring.\<close>

fun str_in :: "string \<Rightarrow> string \<Rightarrow> bool" where
  "str_in sub [] = (sub = [])"
| "str_in sub (c # cs) = (startswith (c # cs) sub \<or> str_in sub cs)"

definition digit_char :: "nat \<Rightarrow> char" where
  "digit_char d = char_of (48 + d)"

function str_of_nat :: "nat \<Rightarrow> string" where
  "str_of_nat n = (if n < 10 then [digit_char n] else str_of_nat (n div 10) @ [digit_char (n mod 10)])"
  by pat_completeness auto
termination
  by (relation "measure (\<lambda>n. n)") auto

declare str_of_nat.simps [simp del]

definition str_of_int :: "int \<Rightarrow> string" where
  "str_of_int i = (if i < 0 then CHR ''-'' # str_of_nat (nat (- i)) else str_of_nat (nat i))"

text \<open>\<^verbatim>\<open>str(v)\<close> and the truth value of \<^verbatim>\<open>v\<close> in a condition.\<close>

fun py_str :: "pyval \<Rightarrow> string" where
  "py_str VNone = ''None''"
| "py_str (VStr s) = s"
| "py_str (VInt i) = str_of_int i"
| "py_str (VFloat x) = f_str x"

fun truthy :: "pyval \<Rightarrow> bool" where
  "truthy VNone = False"
| "truthy (VStr s) = (s \<noteq> [])"
| "truthy (VInt i) = (i \<noteq> 0)"
| "truthy (VFloat x) = (\<not> (f_is_integer x \<and> f_int x = 0))"

text \<open>\<^verbatim>\<open>a or b\<close>\<close>

definition py_or :: "pyval \<Rightarrow> pyval \<Rightarrow> pyval" where
  "py_or a b = (if truthy a then a else b)"

section \<open>Value normalizers (normalize.py)\<close>

definition normalize_status :: "pyval \<Rightarrow> pyval" where
  "normalize_status text =
     (if text = VNone then VNone
      else let t = lower (strip (py_str text)) in
        if t = [] then VNone
        else if t \<in> {''positive'', ''pos'', ''+'', ''yes'', ''detected''} then VStr ''Positive''
        else if t \<in> {''negative'', ''neg'', ''-'', ''no'', ''not detected''} then VStr ''Negative''
        else if t \<in> {''equivocal'', ''borderline'', ''indeterminate''} then VStr ''Equivocal''
        else if t \<in> {''unknown'', ''pending'', ''n/a'', ''na''} then VStr ''Unknown''
        else if endswith t ''+'' then VStr ''Positive''
        else if endswith t ''-'' then VStr ''Negative''
        else VNone)"

text \<open>\<^verbatim>\<open>re.sub(r"\s+", "", s)\<close>: every whitespace character is deleted.\<close>

definition remove_ws :: "string \<Rightarrow> string" where
  "remove_ws s = filter (\<lambda>c. \<not> isspace c) s"

definition ihc_to_status :: "pyval \<Rightarrow> pyval" where
  "ihc_to_status ihc =
     (if \<not> truthy ihc then VNone
      else let s = remove_ws (lower (strip (py_str ihc))) in
        if s \<in> {''3+'', ''3''} then VStr ''Positive''
        else if s \<in> {''2+'', ''2''} then VStr ''Equivocal''
        else if s \<in> {''1+'', ''1'', ''0'', ''0+''} then VStr ''Negative''
        else if s \<in> {''0/1+'', ''0-1+'', ''0-1''} then VStr ''Negative''
        else VNone)"

definition fish_to_status :: "pyval \<Rightarrow> pyval" where
  "fish_to_status fish =
     (if \<not> truthy fish then VNone
      else let s = lower (strip (py_str fish)) in
        if str_in ''not amplified'' s \<or> str_in ''nonampl'' s \<or> str_in ''non-ampl'' s then VStr ''Negative''
        else if str_in ''no ampl'' s \<or> str_in ''no amplification'' s then VStr ''Negative''
        else if str_in ''amplified'' s \<or> str_in ''amplification'' s then VStr ''Positive''
        else if str_in ''positive'' s \<or> str_in ''pos'' s then VStr ''Positive''
        else if str_in ''negative'' s \<or> str_in ''neg'' s then VStr ''Negative''
        else VNone)"

definition her2_final_status :: "pyval \<Rightarrow> pyval \<Rightarrow> pyval \<Rightarrow> pyval \<times> pyval" where
  "her2_final_status ihc_score fish explicit =
     (let fish_status = fish_to_status fish in
      if truthy fish_status then (fish_status, VStr ''fish'')
      else let ihc_status = ihc_to_status ihc_score in
        if truthy ihc_status then (ihc_status, VStr ''ihc'')
        else let exp = normalize_status explicit in
          if exp \<in> {VStr ''Positive'', VStr ''Negative'', VStr ''Equivocal''} then (exp, VStr ''explicit'')
          else (VNone, VNone))"

section \<open>HER2 in the aggregator (aggregate.py)\<close>

definition compute_her2_final :: "pyval \<Rightarrow> pyval \<Rightarrow> pyval \<times> pyval" where
  "compute_her2_final ihc_score fish =
     (if truthy fish then
        (let f = lower (strip (py_str fish)) in
         if str_in ''ampl'' f \<and> \<not> str_in ''not'' f then (VStr ''Positive'', VStr ''fish'')
         else if str_in ''not'' f \<and> str_in ''ampl'' f then (VStr ''Negative'', VStr ''fish'')
         else if str_in ''neg'' f then (VStr ''Negative'', VStr ''fish'')
         else if str_in ''pos'' f then (VStr ''Positive'', VStr ''fish'')
         else (VStr ''Unknown'', VStr ''fish''))
      else if truthy ihc_score then
        (let s = lower (strip (py_str ihc_score)) in
         if str_in ''3'' s \<and> str_in ''+'' s then (VStr ''Positive'', VStr ''ihc'')
         else if startswith s ''3'' then (VStr ''Positive'', VStr ''ihc'')
         else if startswith s ''2'' \<and> str_in ''+'' s then (VStr ''Equivocal'', VStr ''ihc'')
         else if startswith s ''1'' \<and> str_in ''+'' s then (VStr ''Negative'', VStr ''ihc'')
         else if startswith s ''0'' then (VStr ''Negative'', VStr ''ihc'')
         else if s = ''3'' then (VStr ''Positive'', VStr ''ihc'')
         else if s = ''2'' then (VStr ''Equivocal'', VStr ''ihc'')
         else if s = ''1'' \<or> s = ''0'' then (VStr ''Negative'', VStr ''ihc'')
         else (VStr ''Unknown'', VStr ''ihc''))
      else (VNone, VNone))"

section \<open>Regular expressions as the code uses them\<close>

text \<open>
  The patterns of the source are built from single characters and character classes,
  greedy bounded repetition of a class, the word boundary, capture groups, optional parts
  and alternation. The matcher below is Python's backtracking search: \<open>rx_seq\<close> lists
  every way a pattern matches at one position, in the order backtracking tries them, so
  the head of the list is the match \<^verbatim>\<open>re\<close> reports. A state is the character before
  the position (for the word boundary), the text that remains, and the groups captured.
\<close>

datatype rx =
    Chr "char \<Rightarrow> bool"
  | Rep "char \<Rightarrow> bool" nat "nat option"
  | Bnd
  | Grp nat "rx list"
  | Opt "rx list"
  | Alt "rx list" "rx list"

type_synonym caps = "(nat \<times> string) list"

type_synonym rx_state = "char option \<times> string \<times> caps"

definition at_boundary :: "char option \<Rightarrow> string \<Rightarrow> bool" where
  "at_boundary prev s =
     ((case prev of None \<Rightarrow> False | Some c \<Rightarrow> isword c) \<noteq> (case s of [] \<Rightarrow> False | c # cs \<Rightarrow> isword c))"

definition rep_counts :: "(char \<Rightarrow> bool) \<Rightarrow> nat \<Rightarrow> nat option \<Rightarrow> string \<Rightarrow> nat list" where
  \<comment> \<open>the numbers of characters a greedy repetition may take, the largest first\<close>
  "rep_counts cls lo hi s =
     (let n = length (takeWhile cls s);
          m = (case hi of None \<Rightarrow> n | Some h \<Rightarrow> min n h)
      in rev [lo..<Suc m])"

definition advance :: "char option \<Rightarrow> string \<Rightarrow> caps \<Rightarrow> nat \<Rightarrow> rx_state" where
  "advance prev s cs k = ((if k = 0 then prev else Some (s ! (k - 1))), drop k s, cs)"

function rx_match :: "rx \<Rightarrow> char option \<Rightarrow> string \<Rightarrow> caps \<Rightarrow> rx_state list"
  and rx_seq :: "rx list \<Rightarrow> char option \<Rightarrow> string \<Rightarrow> caps \<Rightarrow> rx_state list"
  and rx_alts :: "rx list \<Rightarrow> rx_state list \<Rightarrow> rx_state list"
where
  "rx_match (Chr cls) prev s cs =
     (case s of [] \<Rightarrow> [] | c # rest \<Rightarrow> if cls c then [(Some c, rest, cs)] else [])"
| "rx_match (Rep cls lo hi) prev s cs = map (advance prev s cs) (rep_counts cls lo hi s)"
| "rx_match Bnd prev s cs = (if at_boundary prev s then [(prev, s, cs)] else [])"
| "rx_match (Grp g rs) prev s cs =
     map (\<lambda>(p, s', cs'). (p, s', (g, take (length s - length s') s) # cs')) (rx_seq rs prev s cs)"
| "rx_match (Opt rs) prev s cs = rx_seq rs prev s cs @ [(prev, s, cs)]"
| "rx_match (Alt as bs) prev s cs = rx_seq as prev s cs @ rx_seq bs prev s cs"
| "rx_seq [] prev s cs = [(prev, s, cs)]"
| "rx_seq (r # rs) prev s cs = rx_alts rs (rx_match r prev s cs)"
| "rx_alts rs [] = []"
| "rx_alts rs (st # sts) = rx_seq rs (fst st) (fst (snd st)) (snd (snd st)) @ rx_alts rs sts"
  by pat_completeness auto
termination
  by (relation "inv_image (less_than <*lex*> less_than)
        (\<lambda>x. case x of
            Inl (r, _) \<Rightarrow> (size r, 0)
          | Inr (Inl (rs, _)) \<Rightarrow> (size_list size rs, 0)
          | Inr (Inr (rs, sts)) \<Rightarrow> (size_list size rs, Suc (length sts)))")
     auto

fun rx_search :: "rx list \<Rightarrow> char option \<Rightarrow> string \<Rightarrow> caps option" where
  "rx_search rs prev [] = (case rx_seq rs prev [] [] of [] \<Rightarrow> None | st # _ \<Rightarrow> Some (snd (snd st)))"
| "rx_search rs prev (c # s) =
     (case rx_seq rs prev (c # s) [] of
        [] \<Rightarrow> rx_search rs (Some c) s
      | st # _ \<Rightarrow> Some (snd (snd st)))"

text \<open>\<^verbatim>\<open>re.search(pattern, s)\<close>, and \<^verbatim>\<open>m.group(g)\<close> of its result.\<close>

definition re_search :: "rx list \<Rightarrow> string \<Rightarrow> caps option" where
  "re_search rs s = rx_search rs None s"

definition group :: "caps \<Rightarrow> nat \<Rightarrow> pyval" where
  "group cs g = (case map_of cs g of None \<Rightarrow> VNone | Some t \<Rightarrow> VStr t)"

definition lit :: "string \<Rightarrow> rx list" where
  "lit s = map (\<lambda>c. Chr (\<lambda>x. x = c)) s"

definition lit_i :: "string \<Rightarrow> rx list" where
  \<comment> \<open>a literal under \<^verbatim>\<open>re.I\<close>; the literal is written in lower case\<close>
  "lit_i s = map (\<lambda>c. Chr (\<lambda>x. lower_char x = c)) s"

text \<open>\<^verbatim>\<open>int(s)\<close> on a run of decimal digits.\<close>

definition digit_val :: "char \<Rightarrow> int" where
  "digit_val c = int (of_char c) - 48"

definition int_of_digits :: "string \<Rightarrow> int" where
  "int_of_digits ds = foldl (\<lambda>a c. 10 * a + digit_val c) 0 ds"

subsection \<open>normalize\_percent, normalize\_histology, normalize\_grade, normalize\_stage\<close>

definition percent_rx :: "rx list" where
  \<comment> \<open>\<^verbatim>\<open>(\d{1,3})\s*%?\<close>\<close>
  "percent_rx = [Grp 1 [Rep isdigit 1 (Some 3)], Rep isspace 0 None, Opt [Chr (\<lambda>c. c = CHR ''%'')]]"

definition normalize_percent :: "pyval \<Rightarrow> pyval" where
  "normalize_percent t =
     (if \<not> truthy t then VNone
      else case re_search percent_rx (py_str t) of
        None \<Rightarrow> VNone
      | Some m \<Rightarrow> (let v = int_of_digits (py_str (group m 1)) in
                   if 0 \<le> v \<and> v \<le> 100 then VInt v else VNone))"

definition normalize_histology :: "pyval \<Rightarrow> pyval" where
  "normalize_histology t0 =
     (if \<not> truthy t0 then VNone
      else let t = lower (py_str t0);
               has_idc = (str_in ''invasive ductal'' t \<or> str_in ''idc'' t);
               has_ilc = (str_in ''invasive lobular'' t \<or> str_in ''ilc'' t)
        in if has_idc \<and> has_ilc then VStr ''Mixed''
           else if str_in ''dcis'' t \<or> str_in ''ductal carcinoma in situ'' t then VStr ''DCIS''
           else if has_idc then VStr ''IDC''
           else if has_ilc then VStr ''ILC''
           else VNone)"

definition grade_rx :: "rx list" where
  \<comment> \<open>\<^verbatim>\<open>\bgrade\s*[:\-]?\s*(\d)\b\<close>\<close>
  "grade_rx = [Bnd] @ lit ''grade'' @
     [Rep isspace 0 None, Opt [Chr (\<lambda>c. c = CHR '':'' \<or> c = CHR ''-'')], Rep isspace 0 None,
      Grp 1 [Chr isdigit], Bnd]"

definition normalize_grade :: "pyval \<Rightarrow> pyval" where
  "normalize_grade t0 =
     (if \<not> truthy t0 then VNone
      else case re_search grade_rx (lower (py_str t0)) of
        None \<Rightarrow> VNone
      | Some m \<Rightarrow> (let g = group m 1 in
                   if g \<in> {VStr ''1'', VStr ''2'', VStr ''3''} then g else VNone))"

definition stage_rx :: "rx list" where
  \<comment> \<open>\<^verbatim>\<open>\bstage\s*([ivx]+)\s*([abc])?\b\<close>\<close>
  "stage_rx = [Bnd] @ lit ''stage'' @
     [Rep isspace 0 None,
      Grp 1 [Rep (\<lambda>c. c = CHR ''i'' \<or> c = CHR ''v'' \<or> c = CHR ''x'') 1 None],
      Rep isspace 0 None,
      Opt [Grp 2 [Chr (\<lambda>c. c = CHR ''a'' \<or> c = CHR ''b'' \<or> c = CHR ''c'')]],
      Bnd]"

definition normalize_stage :: "pyval \<Rightarrow> pyval" where
  "normalize_stage t0 =
     (if \<not> truthy t0 then VNone
      else case re_search stage_rx (lower (py_str t0)) of
        None \<Rightarrow> VNone
      | Some m \<Rightarrow> (let roman = upper (py_str (group m 1));
                       suffix = upper (py_str (py_or (group m 2) (VStr [])))
                   in VStr (roman @ suffix)))"

definition reconcile_her2 :: "pyval \<Rightarrow> pyval \<Rightarrow> pyval \<Rightarrow> pyval \<times> pyval \<times> pyval" where
  "reconcile_her2 ihc_score0 fish0 explicit0 =
     (let ihc_score = (if truthy ihc_score0 then VStr (strip (py_str ihc_score0)) else VNone);
          fish = (if truthy fish0 then VStr (strip (py_str fish0)) else VNone);
          explicit = (if truthy explicit0 then VStr (strip (py_str explicit0)) else VNone);
          fish_status = fish_to_status fish
      in if truthy fish_status then (fish_status, ihc_score, fish)
         else let ihc_status = ihc_to_status ihc_score in
           if truthy ihc_status then (ihc_status, ihc_score, fish)
           else let exp = normalize_status explicit in
             if exp \<in> {VStr ''Positive'', VStr ''Negative'', VStr ''Equivocal''} then (exp, ihc_score, fish)
             else (VNone, ihc_score, fish))"

section \<open>Evidence (evidence.py)\<close>

text \<open>
  The dataclass \<^verbatim>\<open>Evidence\<close>. The confidence is a constant the code never computes
  with; it is kept in hundredths. \<^verbatim>\<open>entity\<close> is the property that returns \<^verbatim>\<open>field\<close>.
\<close>

record evidence =
  ev_patient_id :: string
  ev_note_id :: string
  ev_note_date :: pyval
  ev_note_type :: pyval
  ev_field :: string
  ev_value :: pyval
  ev_start :: nat
  ev_end :: nat
  ev_snippet :: string
  ev_label :: string
  ev_confidence :: nat
  ev_is_negated :: bool
  ev_is_uncertain :: bool

definition ev_entity :: "evidence \<Rightarrow> string" where
  "ev_entity e = ev_field e"

section \<open>Per-note extraction (preprocess.py, extract.py)\<close>

type_synonym dict = "string \<Rightarrow> pyval option"

text \<open>\<^verbatim>\<open>d.get(k)\<close>\<close>

definition dict_get :: "dict \<Rightarrow> string \<Rightarrow> pyval" where
  "dict_get d k = (case d k of None \<Rightarrow> VNone | Some v \<Rightarrow> v)"

fun replace_crlf :: "string \<Rightarrow> string" where
  "replace_crlf [] = []"
| "replace_crlf [c] = [c]"
| "replace_crlf (c # d # s) =
     (if c = CHR 0x0D \<and> d = CHR 0x0A then CHR 0x0A # replace_crlf s else c # replace_crlf (d # s))"

definition replace_cr :: "string \<Rightarrow> string" where
  "replace_cr s = map (\<lambda>c. if c = CHR 0x0D then CHR 0x0A else c) s"

text \<open>
  \<^verbatim>\<open>re.sub\<close> of a pattern \<^verbatim>\<open>[class]{k,}\<close> by a fixed string: a maximal run of the
  class of length at least \<open>k\<close> is replaced, a shorter run is kept. \<open>run\<close> is the run
  being read.
\<close>

definition flush_run :: "nat \<Rightarrow> string \<Rightarrow> string \<Rightarrow> string" where
  "flush_run k repl run = (if run \<noteq> [] \<and> k \<le> length run then repl else run)"

fun sub_runs :: "(char \<Rightarrow> bool) \<Rightarrow> nat \<Rightarrow> string \<Rightarrow> string \<Rightarrow> string \<Rightarrow> string" where
  "sub_runs cls k repl run [] = flush_run k repl run"
| "sub_runs cls k repl run (c # s) =
     (if cls c then sub_runs cls k repl (run @ [c]) s
      else flush_run k repl run @ c # sub_runs cls k repl [] s)"

definition clean_text :: "string \<Rightarrow> string" where
  "clean_text t0 =
     (if t0 = [] then []
      else let t1 = replace_cr (replace_crlf t0);
               t2 = sub_runs (\<lambda>c. c = CHR 0x09 \<or> c = CHR '' '') 2 '' '' [] t1;
               t3 = sub_runs (\<lambda>c. c = CHR 0x0A) 3 [CHR 0x0A, CHR 0x0A] [] t2
           in strip t3)"

text \<open>
  A candidate mention, as the recognizer delivers it: \<^verbatim>\<open>ent.label_\<close>, \<^verbatim>\<open>ent.text\<close>,
  \<^verbatim>\<open>ent.sent.text\<close>, the character offsets and the two context flags that
  \<^verbatim>\<open>_get_context_flags\<close> reads. The recognizer itself (spaCy, medspaCy) is outside
  the repository; its output \<^verbatim>\<open>doc.ents\<close> is an argument of \<open>extract_note\<close>.
\<close>

record mention =
  m_label :: string
  m_text :: string
  m_sent_text :: string
  m_start_char :: nat
  m_end_char :: nat
  m_is_negated :: bool
  m_is_uncertain :: bool

definition er_keyword :: rx where
  "er_keyword = Alt (lit_i ''estrogen receptor'') (lit_i ''er'')"

definition pr_keyword :: rx where
  "pr_keyword = Alt (lit_i ''progesterone receptor'') (lit_i ''pr'')"

definition pct_tail :: "rx list" where
  \<comment> \<open>\<^verbatim>\<open>[^%\n]{0,60}\b(\d{1,3})\s*%\<close>\<close>
  "pct_tail = [Rep (\<lambda>c. c \<noteq> CHR ''%'' \<and> c \<noteq> CHR 0x0A) 0 (Some 60), Bnd,
               Grp 1 [Rep isdigit 1 (Some 3)], Rep isspace 0 None, Chr (\<lambda>c. c = CHR ''%'')]"

definition ER_PCT :: "rx list" where
  "ER_PCT = [Bnd, er_keyword, Bnd] @ pct_tail"

definition PR_PCT :: "rx list" where
  "PR_PCT = [Bnd, pr_keyword, Bnd] @ pct_tail"

definition not_alnum_i :: "char \<Rightarrow> bool" where
  \<comment> \<open>\<^verbatim>\<open>[^a-z0-9]\<close> under \<^verbatim>\<open>re.I\<close>\<close>
  "not_alnum_i c = (let n = (of_char (lower_char c) :: nat) in \<not> ((97 \<le> n \<and> n \<le> 122) \<or> (48 \<le> n \<and> n \<le> 57)))"

definition pos_words :: rx where
  \<comment> \<open>\<^verbatim>\<open>(?:positive|pos|\+)\<close>\<close>
  "pos_words = Alt (lit_i ''positive'') [Alt (lit_i ''pos'') [Chr (\<lambda>c. c = CHR ''+'')]]"

definition neg_words :: rx where
  \<comment> \<open>\<^verbatim>\<open>(?:negative|neg|-)\<close>\<close>
  "neg_words = Alt (lit_i ''negative'') [Alt (lit_i ''neg'') [Chr (\<lambda>c. c = CHR ''-'')]]"

definition ER_POS_FALLBACK :: "rx list" where
  "ER_POS_FALLBACK = [Bnd, er_keyword, Bnd, Rep not_alnum_i 0 (Some 10), Bnd, pos_words, Bnd]"

definition ER_NEG_FALLBACK :: "rx list" where
  "ER_NEG_FALLBACK = [Bnd, er_keyword, Bnd, Rep not_alnum_i 0 (Some 10), Bnd, neg_words, Bnd]"

definition PR_POS_FALLBACK :: "rx list" where
  "PR_POS_FALLBACK = [Bnd, pr_keyword, Bnd, Rep not_alnum_i 0 (Some 10), Bnd, pos_words, Bnd]"

definition PR_NEG_FALLBACK :: "rx list" where
  "PR_NEG_FALLBACK = [Bnd, pr_keyword, Bnd, Rep not_alnum_i 0 (Some 10), Bnd, neg_words, Bnd]"

definition find_percent :: "rx list \<Rightarrow> string \<Rightarrow> pyval" where
  "find_percent pat window =
     (case re_search pat window of
        None \<Rightarrow> VNone
      | Some m \<Rightarrow> (let v = int_of_digits (py_str (group m 1)) in
                   if 0 \<le> v \<and> v \<le> 100 then VInt v else VNone))"

definition find_er_percent :: "string \<Rightarrow> pyval" where
  "find_er_percent window = find_percent ER_PCT window"

definition find_pr_percent :: "string \<Rightarrow> pyval" where
  "find_pr_percent window = find_percent PR_PCT window"

text \<open>The state of the loop over \<^verbatim>\<open>doc.ents\<close>: the variables the loop body assigns.\<close>

record loop_state =
  phenos :: dict
  her2_explicit :: pyval
  her2_ihc :: pyval
  her2_fish :: pyval
  evidence_acc :: "evidence list"

text \<open>The arguments of \<^verbatim>\<open>extract_note\<close> that \<^verbatim>\<open>add_ev\<close> closes over.\<close>

record note_ctx =
  c_text :: string
  c_patient_id :: string
  c_note_id :: string
  c_note_date :: pyval
  c_note_type :: pyval

definition add_ev :: "note_ctx \<Rightarrow> string \<Rightarrow> pyval \<Rightarrow> mention \<Rightarrow> string \<Rightarrow> nat \<Rightarrow> loop_state \<Rightarrow> loop_state" where
  "add_ev c field val ent lbl conf st =
     (let t = c_text c;
          a = (if 80 \<le> m_start_char ent then m_start_char ent - 80 else 0);
          b = min (m_end_char ent + 80) (length t);
          snippet = drop a (take b t)
      in st\<lparr>evidence_acc := evidence_acc st @
           [\<lparr>ev_patient_id = c_patient_id c, ev_note_id = c_note_id c,
             ev_note_date = c_note_date c, ev_note_type = c_note_type c,
             ev_field = field, ev_value = val,
             ev_start = m_start_char ent, ev_end = m_end_char ent,
             ev_snippet = snippet, ev_label = lbl, ev_confidence = conf,
             ev_is_negated = m_is_negated ent, ev_is_uncertain = m_is_uncertain ent\<rparr>]\<rparr>)"

definition set_pheno :: "string \<Rightarrow> pyval \<Rightarrow> loop_state \<Rightarrow> loop_state" where
  "set_pheno k v st = st\<lparr>phenos := (phenos st)(k \<mapsto> v)\<rparr>"

definition receptor_step ::
  "note_ctx \<Rightarrow> string \<Rightarrow> string \<Rightarrow> string \<Rightarrow> (string \<Rightarrow> pyval) \<Rightarrow> mention \<Rightarrow> loop_state \<Rightarrow> loop_state" where
  \<comment> \<open>the shared shape of the four ER/PR branches\<close>
  "receptor_step c status_key status percent_key find_pct ent st =
     (let st1 = set_pheno status_key (normalize_status (VStr status)) st;
          st2 = add_ev c status_key (VStr status) ent (m_label ent) 85 st1;
          pct = find_pct (m_sent_text ent)
      in if pct \<noteq> VNone
         then add_ev c percent_key (VStr (py_str pct)) ent (m_label ent) 70 (set_pheno percent_key pct st2)
         else st2)"

definition ent_step :: "note_ctx \<Rightarrow> mention \<Rightarrow> loop_state \<Rightarrow> loop_state" where
  "ent_step c ent st =
     (let lbl = m_label ent; span = m_text ent in
      if lbl = ''ER_POS'' then receptor_step c ''er_status'' ''Positive'' ''er_percent'' find_er_percent ent st
      else if lbl = ''ER_NEG'' then receptor_step c ''er_status'' ''Negative'' ''er_percent'' find_er_percent ent st
      else if lbl = ''PR_POS'' then receptor_step c ''pr_status'' ''Positive'' ''pr_percent'' find_pr_percent ent st
      else if lbl = ''PR_NEG'' then receptor_step c ''pr_status'' ''Negative'' ''pr_percent'' find_pr_percent ent st
      else if lbl = ''HER2_IHC'' then
        add_ev c ''her2_ihc_score'' (VStr (strip span)) ent lbl 80 (st\<lparr>her2_ihc := VStr (strip span)\<rparr>)
      else if lbl = ''HER2_POS'' then
        add_ev c ''her2_status'' (VStr ''Positive'') ent lbl 75 (st\<lparr>her2_explicit := VStr ''Positive''\<rparr>)
      else if lbl = ''HER2_NEG'' then
        add_ev c ''her2_status'' (VStr ''Negative'') ent lbl 75 (st\<lparr>her2_explicit := VStr ''Negative''\<rparr>)
      else if lbl = ''HER2_FISH_POS'' then
        add_ev c ''her2_fish'' (VStr ''Amplified'') ent lbl 85 (st\<lparr>her2_fish := VStr ''Amplified''\<rparr>)
      else if lbl = ''HER2_FISH_NEG'' then
        add_ev c ''her2_fish'' (VStr ''Not amplified'') ent lbl 85 (st\<lparr>her2_fish := VStr ''Not amplified''\<rparr>)
      else if lbl = ''KI67'' then
        (let v = normalize_percent (VStr span) in
         if v \<noteq> VNone then add_ev c ''ki67_percent'' (VStr (py_str v)) ent lbl 80 (set_pheno ''ki67_percent'' v st)
         else st)
      else if startswith lbl ''HISTOLOGY_'' then
        (let hist = normalize_histology (VStr (if lbl \<noteq> ''HISTOLOGY_TEXT'' then span else m_sent_text ent)) in
         if truthy hist then add_ev c ''histology'' hist ent lbl 75 (set_pheno ''histology'' hist st)
         else st)
      else if lbl = ''GRADE'' then
        (let g = normalize_grade (VStr (m_sent_text ent)) in
         if truthy g then add_ev c ''grade'' g ent lbl 75 (set_pheno ''grade'' g st)
         else st)
      else if lbl \<in> {''STAGE_PATH'', ''STAGE_CLIN'', ''STAGE_GENERIC''} then
        (let s = normalize_stage (VStr (if lbl \<noteq> ''STAGE_GENERIC'' then span else m_sent_text ent)) in
         if truthy s then
           (if lbl = ''STAGE_PATH'' then add_ev c ''stage_path'' s ent lbl 75 (set_pheno ''stage_path'' s st)
            else if lbl = ''STAGE_CLIN'' then add_ev c ''stage_clinical'' s ent lbl 75 (set_pheno ''stage_clinical'' s st)
            else if \<not> truthy (dict_get (phenos st) ''stage_path'')
              then add_ev c ''stage_path'' s ent lbl 60 (set_pheno ''stage_path'' s st)
            else if \<not> truthy (dict_get (phenos st) ''stage_clinical'')
              then add_ev c ''stage_clinical'' s ent lbl 60 (set_pheno ''stage_clinical'' s st)
            else st)
         else st)
      else st)"

definition initial_phenos :: "note_ctx \<Rightarrow> dict" where
  "initial_phenos c =
     [''patient_id'' \<mapsto> VStr (c_patient_id c), ''note_id'' \<mapsto> VStr (c_note_id c),
      ''note_date'' \<mapsto> c_note_date c, ''note_type'' \<mapsto> c_note_type c,
      ''er_status'' \<mapsto> VNone, ''er_percent'' \<mapsto> VNone,
      ''pr_status'' \<mapsto> VNone, ''pr_percent'' \<mapsto> VNone,
      ''her2_status'' \<mapsto> VNone, ''her2_ihc_score'' \<mapsto> VNone, ''her2_fish'' \<mapsto> VNone,
      ''ki67_percent'' \<mapsto> VNone, ''histology'' \<mapsto> VNone, ''grade'' \<mapsto> VNone,
      ''stage_clinical'' \<mapsto> VNone, ''stage_path'' \<mapsto> VNone]"

definition initial_state :: "note_ctx \<Rightarrow> loop_state" where
  "initial_state c =
     \<lparr>phenos = initial_phenos c, her2_explicit = VNone, her2_ihc = VNone, her2_fish = VNone,
      evidence_acc = []\<rparr>"

text \<open>The loop \<^verbatim>\<open>for ent in doc.ents\<close>: the mentions in order, each on the state the last left.\<close>

definition ents_loop :: "note_ctx \<Rightarrow> mention list \<Rightarrow> loop_state \<Rightarrow> loop_state" where
  "ents_loop c ents st = fold (ent_step c) ents st"

definition status_fallback :: "string \<Rightarrow> rx list \<Rightarrow> rx list \<Rightarrow> string \<Rightarrow> dict \<Rightarrow> dict" where
  "status_fallback key pos_pat neg_pat t ph =
     (if dict_get ph key = VNone then
        (if re_search pos_pat t \<noteq> None then ph(key \<mapsto> normalize_status (VStr ''Positive''))
         else if re_search neg_pat t \<noteq> None then ph(key \<mapsto> normalize_status (VStr ''Negative''))
         else ph)
      else ph)"

definition percent_fallback :: "string \<Rightarrow> (string \<Rightarrow> pyval) \<Rightarrow> string \<Rightarrow> dict \<Rightarrow> dict" where
  "percent_fallback key find_pct t ph =
     (if dict_get ph key = VNone then
        (let p = find_pct t in if p \<noteq> VNone then ph(key \<mapsto> p) else ph)
      else ph)"

definition extract_note ::
  "string \<Rightarrow> string \<Rightarrow> string \<Rightarrow> pyval \<Rightarrow> pyval \<Rightarrow> mention list \<Rightarrow> dict \<times> evidence list" where
  "extract_note note_text patient_id note_id note_date note_type ents =
     (let t = clean_text note_text;
          c = \<lparr>c_text = t, c_patient_id = patient_id, c_note_id = note_id,
               c_note_date = note_date, c_note_type = note_type\<rparr>;
          st = ents_loop c ents (initial_state c);
          ph1 = status_fallback ''er_status'' ER_POS_FALLBACK ER_NEG_FALLBACK t (phenos st);
          ph2 = status_fallback ''pr_status'' PR_POS_FALLBACK PR_NEG_FALLBACK t ph1;
          ph3 = percent_fallback ''er_percent'' find_er_percent t ph2;
          ph4 = percent_fallback ''pr_percent'' find_pr_percent t ph3;
          r = reconcile_her2 (her2_ihc st) (her2_fish st) (her2_explicit st);
          ph5 = ph4(''her2_status'' \<mapsto> normalize_status (fst r),
                    ''her2_ihc_score'' \<mapsto> fst (snd r),
                    ''her2_fish'' \<mapsto> snd (snd r))
      in (ph5, evidence_acc st))"

section \<open>Patient aggregation (schema.py, aggregate.py)\<close>

definition PHENOTYPE_COLUMNS_V1 :: "string list" where
  "PHENOTYPE_COLUMNS_V1 =
     [''patient_id'',
      ''er_status'', ''er_percent'', ''er_confidence'',
      ''pr_status'', ''pr_percent'', ''pr_confidence'',
      ''her2_ihc_score'', ''her2_fish'', ''her2_final_status'', ''her2_confidence'',
      ''ki67_percent'', ''ki67_confidence'',
      ''histology'', ''histology_confidence'', ''grade'',
      ''stage_clinical'', ''stage_path'']"

definition NOTE_TYPE_PRECEDENCE :: "(pyval \<times> int) list" where
  "NOTE_TYPE_PRECEDENCE =
     [(VStr ''Pathology'', 100), (VStr ''SurgicalPathology'', 100),
      (VStr ''PathologyAddendum'', 100), (VStr ''Addendum'', 100),
      (VStr ''OncologyConsult'', 70),
      (VStr ''Radiology'', 40),
      (VStr ''ProgressNote'', 30),
      (VStr ''Unknown'', 0), (VStr [], 0), (VNone, 0)]"

text \<open>
  \<^verbatim>\<open>dateutil.parser.parse\<close> is a library outside the repository: it is the parameter
  \<open>dtparse\<close>, which gives the proleptic Gregorian ordinal of the date it reads
  (\<^verbatim>\<open>.date().toordinal()\<close>), and \<open>None\<close> where it raises. It raises on everything
  that is not a string.
\<close>

definition parse_date :: "(string \<Rightarrow> int option) \<Rightarrow> pyval \<Rightarrow> int option" where
  "parse_date dtparse d =
     (if \<not> truthy d then None
      else case d of VStr s \<Rightarrow> dtparse s | _ \<Rightarrow> None)"

definition note_score :: "(string \<Rightarrow> int option) \<Rightarrow> pyval \<Rightarrow> pyval \<Rightarrow> int \<times> int" where
  "note_score dtparse note_type note_date =
     (let tscore = (case map_of NOTE_TYPE_PRECEDENCE note_type of None \<Rightarrow> 0 | Some p \<Rightarrow> p);
          dscore = (case parse_date dtparse note_date of None \<Rightarrow> 0 | Some n \<Rightarrow> n)
      in (tscore, dscore))"

definition confidence_bucket :: "pyval \<Rightarrow> string" where
  "confidence_bucket note_type =
     (if \<not> truthy note_type then ''unknown''
      else let nt = lower (py_str note_type) in
        if str_in ''addendum'' nt then ''addendum''
        else if str_in ''path'' nt then ''pathology''
        else if str_in ''oncology'' nt \<or> str_in ''consult'' nt then ''consult''
        else if str_in ''radio'' nt then ''radiology''
        else ''unknown'')"

definition norm_val :: "pyval \<Rightarrow> string" where
  "norm_val v =
     (case v of
        VNone \<Rightarrow> []
      | VFloat x \<Rightarrow> if f_is_integer x then str_of_int (f_int x) else strip (py_str v)
      | _ \<Rightarrow> strip (py_str v))"

text \<open>
  The loop of \<^verbatim>\<open>_evidence_support\<close>; \<open>any_support\<close> is the flag the loop has set so
  far, and the loop stops at the first clean entry.
\<close>

fun evidence_loop :: "evidence list \<Rightarrow> pyval \<Rightarrow> string \<Rightarrow> string \<Rightarrow> bool \<Rightarrow> bool \<times> bool" where
  "evidence_loop [] patient_id field target_val any_support = (False, any_support)"
| "evidence_loop (e # es) patient_id field target_val any_support =
     (if VStr (ev_patient_id e) \<noteq> patient_id then evidence_loop es patient_id field target_val any_support
      else let f = (if ev_field e \<noteq> [] then ev_field e else ev_entity e) in
        if f \<noteq> field then evidence_loop es patient_id field target_val any_support
        else if norm_val (ev_value e) \<noteq> target_val then evidence_loop es patient_id field target_val any_support
        else if \<not> ev_is_negated e \<and> \<not> ev_is_uncertain e then (True, True)
        else evidence_loop es patient_id field target_val True)"

definition evidence_support :: "evidence list \<Rightarrow> pyval \<Rightarrow> string \<Rightarrow> pyval \<Rightarrow> bool \<times> bool" where
  "evidence_support evidence_rows patient_id field v =
     evidence_loop evidence_rows patient_id field (norm_val v) False"

text \<open>
  \<^verbatim>\<open>sorted(xs, key=..., reverse=True)\<close>: Python's sort is stable, and with
  \<^verbatim>\<open>reverse=True\<close> elements of equal key keep their order: the list is reversed,
  sorted stably in ascending order and reversed again.
\<close>

definition sorted_reverse :: "('a \<Rightarrow> 'k::linorder) \<Rightarrow> 'a list \<Rightarrow> 'a list" where
  "sorted_reverse key xs = rev (sort_key key (rev xs))"

definition base_fields :: "string list" where
  "base_fields =
     [''er_status'', ''pr_status'',
      ''her2_ihc_score'', ''her2_fish'',
      ''ki67_percent'', ''histology'', ''grade'',
      ''stage_clinical'', ''stage_path'',
      ''er_percent'', ''pr_percent'']"

definition is_empty_val :: "pyval \<Rightarrow> bool" where
  \<comment> \<open>\<^verbatim>\<open>v is None or v == ""\<close>\<close>
  "is_empty_val v = (v = VNone \<or> v = VStr [])"

text \<open>The two passes over the ranked notes; each returns the chosen row.\<close>

fun first_clean :: "evidence list \<Rightarrow> pyval \<Rightarrow> string \<Rightarrow> dict list \<Rightarrow> dict option" where
  "first_clean evidence_rows patient_id f [] = None"
| "first_clean evidence_rows patient_id f (r # ranked) =
     (let v = dict_get r f in
      if is_empty_val v then first_clean evidence_rows patient_id f ranked
      else if fst (evidence_support evidence_rows patient_id f v) then Some r
      else first_clean evidence_rows patient_id f ranked)"

fun first_nonempty :: "string \<Rightarrow> dict list \<Rightarrow> dict option" where
  "first_nonempty f [] = None"
| "first_nonempty f (r # ranked) =
     (if is_empty_val (dict_get r f) then first_nonempty f ranked else Some r)"

definition set_confidence :: "string \<Rightarrow> string \<Rightarrow> dict \<Rightarrow> dict" where
  "set_confidence f bucket out =
     (if f = ''er_status'' then out(''er_confidence'' \<mapsto> VStr bucket)
      else if f = ''er_percent'' then out(''er_confidence'' \<mapsto> py_or (dict_get out ''er_confidence'') (VStr bucket))
      else if f = ''pr_status'' then out(''pr_confidence'' \<mapsto> VStr bucket)
      else if f = ''pr_percent'' then out(''pr_confidence'' \<mapsto> py_or (dict_get out ''pr_confidence'') (VStr bucket))
      else if f = ''ki67_percent'' then out(''ki67_confidence'' \<mapsto> VStr bucket)
      else if f = ''histology'' then out(''histology_confidence'' \<mapsto> VStr bucket)
      else out)"

definition choose_row :: "evidence list \<Rightarrow> pyval \<Rightarrow> string \<Rightarrow> dict list \<Rightarrow> dict option" where
  \<comment> \<open>\<^verbatim>\<open>chosen_row\<close> after the two passes: the second runs only if the first chose nothing\<close>
  "choose_row evidence_rows patient_id f ranked =
     (case first_clean evidence_rows patient_id f ranked of
        Some r \<Rightarrow> Some r
      | None \<Rightarrow> first_nonempty f ranked)"

definition pick_field :: "dict list \<Rightarrow> evidence list \<Rightarrow> pyval \<Rightarrow> string \<Rightarrow> dict \<Rightarrow> dict" where
  \<comment> \<open>the body of the loop over \<open>base_fields\<close>\<close>
  "pick_field ranked evidence_rows patient_id f out =
     (case choose_row evidence_rows patient_id f ranked of
           None \<Rightarrow> out
         | Some r \<Rightarrow>
             set_confidence f (confidence_bucket (dict_get r ''note_type''))
               (out(f \<mapsto> dict_get r f,
                    f @ ''__source_note_id'' \<mapsto> dict_get r ''note_id'',
                    f @ ''__source_note_type'' \<mapsto> dict_get r ''note_type'',
                    f @ ''__source_note_date'' \<mapsto> dict_get r ''note_date'')))"

definition init_out :: "pyval \<Rightarrow> dict" where
  "init_out patient_id =
     (let out0 = [''patient_id'' \<mapsto> patient_id];
          out1 = fold (\<lambda>col out. if col \<noteq> ''patient_id'' then out(col \<mapsto> VNone) else out)
                   PHENOTYPE_COLUMNS_V1 out0
      in fold (\<lambda>f out. out(f @ ''__source_note_id'' \<mapsto> VNone,
                            f @ ''__source_note_type'' \<mapsto> VNone,
                            f @ ''__source_note_date'' \<mapsto> VNone))
           base_fields out1)"

definition note_key :: "(string \<Rightarrow> int option) \<Rightarrow> dict \<Rightarrow> int \<times> int" where
  \<comment> \<open>the sort key \<^verbatim>\<open>lambda r: _note_score(r.get("note_type"), r.get("note_date"))\<close>\<close>
  "note_key dtparse r = note_score dtparse (dict_get r ''note_type'') (dict_get r ''note_date'')"

definition rank_notes :: "(string \<Rightarrow> int option) \<Rightarrow> dict list \<Rightarrow> dict list" where
  "rank_notes dtparse note_rows = sorted_reverse (note_key dtparse) note_rows"

definition write_her2 :: "dict \<Rightarrow> dict" where
  "write_her2 out =
     (let res = compute_her2_final (dict_get out ''her2_ihc_score'') (dict_get out ''her2_fish'');
          out1 = (if fst res \<noteq> VNone then out(''her2_final_status'' \<mapsto> fst res) else out)
      in if snd res \<noteq> VNone then out1(''her2_confidence'' \<mapsto> snd res) else out1)"

definition aggregate_patient :: "(string \<Rightarrow> int option) \<Rightarrow> dict list \<Rightarrow> evidence list \<Rightarrow> dict" where
  "aggregate_patient dtparse note_rows evidence_rows =
     (case note_rows of
        [] \<Rightarrow> Map.empty
      | r0 # _ \<Rightarrow>
          (let patient_id = dict_get r0 ''patient_id'' in
           if \<not> truthy patient_id then Map.empty
           else let ranked = rank_notes dtparse note_rows;
                    out = fold (pick_field ranked evidence_rows patient_id) base_fields (init_out patient_id)
                in write_her2 out))"

section \<open>The HER2 precedence as the specification words it\<close>

text \<open>
  The specification gives the reconciliation as ordered keyword rules for the FISH
  text, a table for the IHC score and the normalized explicit text. These definitions
  follow its words; the theorems below compare them with \<open>her2_final_status\<close>. The
  keywords are looked for in the trimmed, lower-cased text, the score is looked up
  after trimming, lower-casing and deleting whitespace, as the code does.
\<close>

definition spec_fish_rules :: "(string list \<times> string) list" where
  "spec_fish_rules =
     [([''not amplified'', ''nonampl'', ''non-ampl'', ''no ampl'', ''no amplification''], ''Negative''),
      ([''amplified'', ''amplification''], ''Positive''),
      ([''positive'', ''pos''], ''Positive''),
      ([''negative'', ''neg''], ''Negative'')]"

definition spec_fish_status :: "pyval \<Rightarrow> string option" where
  "spec_fish_status fish =
     (if \<not> truthy fish then None
      else map_option snd
        (find (\<lambda>rule. \<exists>kw \<in> set (fst rule). str_in kw (lower (strip (py_str fish)))) spec_fish_rules))"

definition spec_ihc_table :: "(string \<times> string) list" where
  "spec_ihc_table =
     [(''3+'', ''Positive''), (''3'', ''Positive''),
      (''2+'', ''Equivocal''), (''2'', ''Equivocal''),
      (''1+'', ''Negative''), (''1'', ''Negative''), (''0'', ''Negative''), (''0+'', ''Negative''),
      (''0/1+'', ''Negative''), (''0-1+'', ''Negative''), (''0-1'', ''Negative'')]"

definition spec_ihc_status :: "pyval \<Rightarrow> string option" where
  "spec_ihc_status ihc =
     (if \<not> truthy ihc then None
      else map_of spec_ihc_table (remove_ws (lower (strip (py_str ihc)))))"

definition spec_explicit_status :: "pyval \<Rightarrow> string option" where
  "spec_explicit_status explicit =
     (case normalize_status explicit of
        VStr st \<Rightarrow> if st \<in> {''Positive'', ''Negative'', ''Equivocal''} then Some st else None
      | _ \<Rightarrow> None)"

section \<open>Example inputs\<close>

text \<open>A date parser that reads two ISO dates, and notes and evidence of one patient.\<close>

definition example_dtparse :: "string \<Rightarrow> int option" where
  "example_dtparse s =
     (if s = ''2023-01-01'' then Some 738521 else if s = ''2023-02-01'' then Some 738552 else None)"

definition example_note :: "string \<Rightarrow> string \<Rightarrow> pyval \<Rightarrow> string \<Rightarrow> pyval \<Rightarrow> dict" where
  "example_note note_id note_type note_date field v =
     [''patient_id'' \<mapsto> VStr ''P1'', ''note_id'' \<mapsto> VStr note_id, ''note_type'' \<mapsto> VStr note_type,
      ''note_date'' \<mapsto> note_date, field \<mapsto> v]"

definition example_evidence :: "string \<Rightarrow> string \<Rightarrow> pyval \<Rightarrow> bool \<Rightarrow> evidence" where
  "example_evidence note_id field v negated =
     \<lparr>ev_patient_id = ''P1'', ev_note_id = note_id, ev_note_date = VNone, ev_note_type = VNone,
      ev_field = field, ev_value = v, ev_start = 0, ev_end = 0, ev_snippet = [], ev_label = [],
      ev_confidence = 85, ev_is_negated = negated, ev_is_uncertain = False\<rparr>"

definition example_mention :: "string \<Rightarrow> string \<Rightarrow> mention" where
  "example_mention lbl span =
     \<lparr>m_label = lbl, m_text = span, m_sent_text = span, m_start_char = 0, m_end_char = length span,
      m_is_negated = False, m_is_uncertain = False\<rparr>"

section \<open>Facts about strings\<close>

lemma of_char_lower_char:
  "(of_char (lower_char c) :: nat) =
     (let n = of_char c in if (65 \<le> n \<and> n \<le> 90) \<or> (192 \<le> n \<and> n \<le> 222 \<and> n \<noteq> 215) then n + 32 else n)"
  by (auto simp: lower_char_def Let_def)

lemma isspace_lower_char [simp]: "isspace (lower_char c) = isspace c"
  unfolding isspace_def of_char_lower_char by (auto simp: Let_def)

lemma startswith_single: "startswith s [c] \<longleftrightarrow> (s \<noteq> [] \<and> hd s = c)"
  by (cases s) auto

lemma str_in_single: "str_in [c] s \<longleftrightarrow> c \<in> set s"
  by (induction s) auto

text \<open>A stripped string neither starts nor ends with whitespace.\<close>

lemma strip_edges:
  "strip x = [] \<or> (\<not> isspace (hd (strip x)) \<and> \<not> isspace (last (strip x)))"
proof (cases "strip x = []")
  case True then show ?thesis by simp
next
  case False
  define y where "y = dropWhile isspace x"
  define z where "z = dropWhile isspace (rev y)"
  have sz: "strip x = rev z" by (simp add: strip_def y_def z_def)
  with False have zne: "z \<noteq> []" by simp
  have "\<not> isspace (hd z)" using zne unfolding z_def by (rule hd_dropWhile)
  hence l: "\<not> isspace (last (strip x))" using zne by (simp add: sz last_rev)
  from zne have yne: "y \<noteq> []" by (auto simp: z_def)
  have "\<exists>ws. rev y = ws @ z" unfolding z_def by (metis takeWhile_dropWhile_id)
  then obtain ws where "rev y = ws @ z" ..
  hence "last z = last (rev y)" using zne by simp
  also have "\<dots> = hd y" using yne by (simp add: last_rev)
  finally have "hd (strip x) = hd y" using zne by (simp add: sz hd_rev)
  moreover have "\<not> isspace (hd y)" using yne unfolding y_def by (rule hd_dropWhile)
  ultimately show ?thesis using l by simp
qed

lemma lower_edges:
  "lower (strip x) = [] \<or> (\<not> isspace (hd (lower (strip x))) \<and> \<not> isspace (last (lower (strip x))))"
  using strip_edges[of x] by (auto simp: lower_def hd_map last_map)

lemma remove_ws_mem: "\<not> isspace c \<Longrightarrow> c \<in> set (remove_ws s) \<longleftrightarrow> c \<in> set s"
  by (auto simp: remove_ws_def)

lemma remove_ws_hd:
  "s \<noteq> [] \<Longrightarrow> \<not> isspace (hd s) \<Longrightarrow> remove_ws s \<noteq> [] \<and> hd (remove_ws s) = hd s"
  by (cases s) (auto simp: remove_ws_def)

lemma remove_ws_single:
  assumes "s = [] \<or> (\<not> isspace (hd s) \<and> \<not> isspace (last s))"
  shows "remove_ws s = [c] \<longleftrightarrow> s = [c] \<and> \<not> isspace c"
proof
  assume r: "remove_ws s = [c]"
  then have sne: "s \<noteq> []" by (auto simp: remove_ws_def)
  with assms have e: "\<not> isspace (hd s)" "\<not> isspace (last s)" by auto
  obtain a t where s: "s = a # t" using sne by (cases s) auto
  from r s e have ac: "a = c" and ft: "filter (\<lambda>c. \<not> isspace c) t = []" by (auto simp: remove_ws_def)
  have "t = []"
  proof (rule ccontr)
    assume "t \<noteq> []"
    then have "last s = last t" "last t \<in> set t" using s by auto
    moreover from ft have "\<forall>x\<in>set t. isspace x" by (auto simp: filter_empty_conv)
    ultimately show False using e by auto
  qed
  with s ac e show "s = [c] \<and> \<not> isspace c" by auto
next
  assume "s = [c] \<and> \<not> isspace c" then show "remove_ws s = [c]" by (auto simp: remove_ws_def)
qed

lemma not_space_chars:
  "\<not> isspace CHR ''0''" "\<not> isspace CHR ''1''" "\<not> isspace CHR ''2''" "\<not> isspace CHR ''3''" "\<not> isspace CHR ''+''"
  by (simp_all add: isspace_def)

text \<open>
  On a stripped string the tests of the aggregator (a character occurs, the string starts
  with a character, the string is one character) can be read off the string without its
  whitespace.
\<close>

lemma stripped_facts:
  assumes e: "s = [] \<or> (\<not> isspace (hd s) \<and> \<not> isspace (last s))" and c: "\<not> isspace c"
  shows "str_in [c] s = (c \<in> set (remove_ws s))"
    and "startswith s [c] = (remove_ws s \<noteq> [] \<and> hd (remove_ws s) = c)"
    and "(s = [c]) = (remove_ws s = [c])"
proof -
  show "str_in [c] s = (c \<in> set (remove_ws s))" using c by (simp add: str_in_single remove_ws_mem)
  show "startswith s [c] = (remove_ws s \<noteq> [] \<and> hd (remove_ws s) = c)"
  proof (cases "s = []")
    case True then show ?thesis by (simp add: remove_ws_def)
  next
    case False with e remove_ws_hd[of s] show ?thesis by (auto simp: startswith_single)
  qed
  show "(s = [c]) = (remove_ws s = [c])" using remove_ws_single[OF e, of c] c by auto
qed

section \<open>HER2 reconciliation\<close>

lemma fish_to_status_falsy: "\<not> truthy fish \<Longrightarrow> fish_to_status fish = VNone"
  by (simp add: fish_to_status_def)

lemma fish_to_status_spec:
  "fish_to_status fish = (case spec_fish_status fish of None \<Rightarrow> VNone | Some st \<Rightarrow> VStr st)"
  unfolding fish_to_status_def spec_fish_status_def spec_fish_rules_def
  by (simp add: Let_def)

lemma ihc_to_status_spec:
  "ihc_to_status ihc = (case spec_ihc_status ihc of None \<Rightarrow> VNone | Some st \<Rightarrow> VStr st)"
  unfolding ihc_to_status_def spec_ihc_status_def spec_ihc_table_def
  by (simp add: Let_def)

lemma explicit_spec:
  "(if normalize_status e \<in> {VStr ''Positive'', VStr ''Negative'', VStr ''Equivocal''}
    then (normalize_status e, VStr ''explicit'') else (VNone, VNone))
   = (case spec_explicit_status e of Some st \<Rightarrow> (VStr st, VStr ''explicit'') | None \<Rightarrow> (VNone, VNone))"
  unfolding spec_explicit_status_def by (cases "normalize_status e") auto

lemma spec_status_nonempty:
  "spec_fish_status fish = Some st \<Longrightarrow> st \<noteq> []"
  "spec_ihc_status ihc = Some st \<Longrightarrow> st \<noteq> []"
  unfolding spec_fish_status_def spec_fish_rules_def spec_ihc_status_def spec_ihc_table_def
  by (auto split: if_splits)

lemma her2_final_status_cases:
  "her2_final_status ihc fish explicit =
     (case spec_fish_status fish of
        Some st \<Rightarrow> (VStr st, VStr ''fish'')
      | None \<Rightarrow>
          (case spec_ihc_status ihc of
             Some st \<Rightarrow> (VStr st, VStr ''ihc'')
           | None \<Rightarrow>
               (case spec_explicit_status explicit of
                  Some st \<Rightarrow> (VStr st, VStr ''explicit'')
                | None \<Rightarrow> (VNone, VNone))))"
proof -
  have 1: "truthy (fish_to_status fish) \<longleftrightarrow> spec_fish_status fish \<noteq> None"
    using spec_status_nonempty(1)[of fish] by (auto simp: fish_to_status_spec split: option.splits)
  have 2: "truthy (ihc_to_status ihc) \<longleftrightarrow> spec_ihc_status ihc \<noteq> None"
    using spec_status_nonempty(2)[of ihc] by (auto simp: ihc_to_status_spec split: option.splits)
  show ?thesis
    unfolding her2_final_status_def Let_def 1 2 explicit_spec
    by (auto simp: fish_to_status_spec ihc_to_status_spec split: option.splits)
qed

lemma fish_not_amplified: "spec_fish_status (VStr ''not amplified'') = Some ''Negative''"
  by code_simp

lemma ihc_three_plus: "spec_ihc_status (VStr ''3+'') = Some ''Positive''"
  by code_simp

text \<open>
  C1. The precedence of \<open>her2_final_status\<close> is strict: a FISH text the keyword rules
  decide gives (status, fish) whatever the IHC score and the explicit text are; otherwise
  an IHC score in the table gives (status, ihc) whatever the explicit text is; otherwise
  an explicit text that normalizes to Positive, Negative or Equivocal gives
  (status, explicit); otherwise the result is (none, none). IHC 3+ with FISH
  "not amplified" gives (Negative, fish); IHC 3+ with no FISH and explicit "Negative"
  gives (Positive, ihc).
\<close>

theorem her2_final_status_precedence:
  "(spec_fish_status fish = Some st \<longrightarrow>
      her2_final_status ihc fish explicit = (VStr st, VStr ''fish''))
   \<and> (spec_fish_status fish = None \<and> spec_ihc_status ihc = Some st \<longrightarrow>
      her2_final_status ihc fish explicit = (VStr st, VStr ''ihc''))
   \<and> (spec_fish_status fish = None \<and> spec_ihc_status ihc = None \<and> spec_explicit_status explicit = Some st \<longrightarrow>
      her2_final_status ihc fish explicit = (VStr st, VStr ''explicit''))
   \<and> (spec_fish_status fish = None \<and> spec_ihc_status ihc = None \<and> spec_explicit_status explicit = None \<longrightarrow>
      her2_final_status ihc fish explicit = (VNone, VNone))
   \<and> her2_final_status (VStr ''3+'') (VStr ''not amplified'') explicit = (VStr ''Negative'', VStr ''fish'')
   \<and> her2_final_status (VStr ''3+'') VNone (VStr ''Negative'') = (VStr ''Positive'', VStr ''ihc'')"
proof -
  have a: "her2_final_status (VStr ''3+'') (VStr ''not amplified'') explicit = (VStr ''Negative'', VStr ''fish'')"
    by (simp add: her2_final_status_cases fish_not_amplified)
  have b: "her2_final_status (VStr ''3+'') VNone (VStr ''Negative'') = (VStr ''Positive'', VStr ''ihc'')"
  proof -
    have "spec_fish_status VNone = None" by (simp add: spec_fish_status_def)
    then show ?thesis by (simp add: her2_final_status_cases ihc_three_plus)
  qed
  show ?thesis using a b by (simp add: her2_final_status_cases)
qed

theorem her2_final_status_precedence_witness:
  "spec_fish_status (VStr '' FISH: Not Amplified '') = Some ''Negative''
   \<and> her2_final_status (VStr ''3+'') (VStr '' FISH: Not Amplified '') (VStr ''Positive'')
       = (VStr ''Negative'', VStr ''fish'')
   \<and> spec_fish_status (VStr ''pending'') = None \<and> spec_ihc_status (VStr ''2 +'') = Some ''Equivocal''
   \<and> her2_final_status (VStr ''2 +'') (VStr ''pending'') (VStr ''Positive'') = (VStr ''Equivocal'', VStr ''ihc'')
   \<and> spec_ihc_status (VStr ''4+'') = None \<and> spec_explicit_status (VStr ''neg'') = Some ''Negative''
   \<and> her2_final_status (VStr ''4+'') (VStr ''pending'') (VStr ''neg'') = (VStr ''Negative'', VStr ''explicit'')
   \<and> spec_explicit_status (VStr ''unknown'') = None
   \<and> her2_final_status (VStr ''4+'') (VStr ''pending'') (VStr ''unknown'') = (VNone, VNone)"
proof -
  have f1: "spec_fish_status (VStr '' FISH: Not Amplified '') = Some ''Negative''" by code_simp
  have f2: "spec_fish_status (VStr ''pending'') = None" by code_simp
  have i1: "spec_ihc_status (VStr ''2 +'') = Some ''Equivocal''" by code_simp
  have i2: "spec_ihc_status (VStr ''4+'') = None" by code_simp
  have e1: "spec_explicit_status (VStr ''neg'') = Some ''Negative''" by code_simp
  have e2: "spec_explicit_status (VStr ''unknown'') = None" by code_simp
  show ?thesis
    using f1 f2 i1 i2 e1 e2
      her2_final_status_precedence[of "VStr '' FISH: Not Amplified ''" "''Negative''" "VStr ''3+''" "VStr ''Positive''"]
      her2_final_status_precedence[of "VStr ''pending''" "''Equivocal''" "VStr ''2 +''" "VStr ''Positive''"]
      her2_final_status_precedence[of "VStr ''pending''" "''Negative''" "VStr ''4+''" "VStr ''neg''"]
      her2_final_status_precedence[of "VStr ''pending''" "''Negative''" "VStr ''4+''" "VStr ''unknown''"]
    by simp
qed

section \<open>The aggregator's HER2 function against the reconciler\<close>

lemma ihc_agree:
  assumes nf: "\<not> truthy fish" and ti: "truthy (ihc_to_status ihc)"
  shows "compute_her2_final ihc fish = her2_final_status ihc fish VNone"
proof -
  define s where "s = lower (strip (py_str ihc))"
  define k where "k = remove_ws s"
  have e: "s = [] \<or> (\<not> isspace (hd s) \<and> \<not> isspace (last s))" unfolding s_def by (rule lower_edges)
  note f = stripped_facts[OF e, folded k_def]
  from ti have t: "truthy ihc" unfolding ihc_to_status_def by (cases "truthy ihc") simp_all
  have i: "ihc_to_status ihc =
      (if k = ''3+'' \<or> k = ''3'' then VStr ''Positive''
        else if k = ''2+'' \<or> k = ''2'' then VStr ''Equivocal''
        else if k = ''1+'' \<or> k = ''1'' \<or> k = ''0'' \<or> k = ''0+'' then VStr ''Negative''
        else if k = ''0/1+'' \<or> k = ''0-1+'' \<or> k = ''0-1'' then VStr ''Negative''
        else VNone)"
    using t unfolding ihc_to_status_def k_def s_def by (simp add: Let_def)
  have kk: "k = ''3+'' \<or> k = ''3'' \<or> k = ''2+'' \<or> k = ''2'' \<or> k = ''1+'' \<or> k = ''1'' \<or> k = ''0'' \<or> k = ''0+''
       \<or> k = ''0/1+'' \<or> k = ''0-1+'' \<or> k = ''0-1''"
  proof (rule ccontr)
    assume "\<not> ?thesis"
    then have "ihc_to_status ihc = VNone" unfolding i by simp
    with ti show False by simp
  qed
  have c: "compute_her2_final ihc fish =
       (if CHR ''3'' \<in> set k \<and> CHR ''+'' \<in> set k then (VStr ''Positive'', VStr ''ihc'')
         else if k \<noteq> [] \<and> hd k = CHR ''3'' then (VStr ''Positive'', VStr ''ihc'')
         else if (k \<noteq> [] \<and> hd k = CHR ''2'') \<and> CHR ''+'' \<in> set k then (VStr ''Equivocal'', VStr ''ihc'')
         else if (k \<noteq> [] \<and> hd k = CHR ''1'') \<and> CHR ''+'' \<in> set k then (VStr ''Negative'', VStr ''ihc'')
         else if k \<noteq> [] \<and> hd k = CHR ''0'' then (VStr ''Negative'', VStr ''ihc'')
         else if k = ''3'' then (VStr ''Positive'', VStr ''ihc'')
         else if k = ''2'' then (VStr ''Equivocal'', VStr ''ihc'')
         else if k = ''1'' \<or> k = ''0'' then (VStr ''Negative'', VStr ''ihc'')
         else (VStr ''Unknown'', VStr ''ihc''))"
    using nf t unfolding compute_her2_final_def
    by (simp add: Let_def s_def[symmetric] f[OF not_space_chars(1)] f[OF not_space_chars(2)]
         f[OF not_space_chars(3)] f[OF not_space_chars(4)] f[OF not_space_chars(5)])
  have h: "her2_final_status ihc fish VNone = (ihc_to_status ihc, VStr ''ihc'')"
    using nf ti by (simp add: her2_final_status_def fish_to_status_falsy Let_def)
  have "compute_her2_final ihc fish = (ihc_to_status ihc, VStr ''ihc'')"
    using kk unfolding c i by (elim disjE) simp_all
  with h show ?thesis by simp
qed

lemma fish_agree:
  assumes tf: "truthy fish" and k: "lower (strip (py_str fish)) \<in> {''amplified'', ''not amplified''}"
  shows "compute_her2_final ihc fish = her2_final_status ihc fish VNone"
proof -
  define s where "s = lower (strip (py_str fish))"
  have c: "compute_her2_final ihc fish =
        (if str_in ''ampl'' s \<and> \<not> str_in ''not'' s then (VStr ''Positive'', VStr ''fish'')
         else if str_in ''not'' s \<and> str_in ''ampl'' s then (VStr ''Negative'', VStr ''fish'')
         else if str_in ''neg'' s then (VStr ''Negative'', VStr ''fish'')
         else if str_in ''pos'' s then (VStr ''Positive'', VStr ''fish'')
         else (VStr ''Unknown'', VStr ''fish''))"
    using tf unfolding compute_her2_final_def s_def by (simp add: Let_def)
  have f: "fish_to_status fish =
       (if str_in ''not amplified'' s \<or> str_in ''nonampl'' s \<or> str_in ''non-ampl'' s then VStr ''Negative''
        else if str_in ''no ampl'' s \<or> str_in ''no amplification'' s then VStr ''Negative''
        else if str_in ''amplified'' s \<or> str_in ''amplification'' s then VStr ''Positive''
        else if str_in ''positive'' s \<or> str_in ''pos'' s then VStr ''Positive''
        else if str_in ''negative'' s \<or> str_in ''neg'' s then VStr ''Negative''
        else VNone)"
    using tf unfolding fish_to_status_def s_def by (simp add: Let_def)
  from k have "s = ''amplified'' \<or> s = ''not amplified''" by (simp add: s_def)
  then show ?thesis
  proof
    assume a: "s = ''amplified''"
    have "compute_her2_final ihc fish = (VStr ''Positive'', VStr ''fish'')" unfolding c a by simp
    moreover have "fish_to_status fish = VStr ''Positive''" unfolding f a by simp
    ultimately show ?thesis by (simp add: her2_final_status_def)
  next
    assume a: "s = ''not amplified''"
    have "compute_her2_final ihc fish = (VStr ''Negative'', VStr ''fish'')" unfolding c a by simp
    moreover have "fish_to_status fish = VStr ''Negative''" unfolding f a by simp
    ultimately show ?thesis by (simp add: her2_final_status_def)
  qed
qed

section \<open>Facts about the aggregator\<close>

subsection \<open>Ranking\<close>

lemma set_sorted_reverse [simp]: "set (sorted_reverse key xs) = set xs"
  by (simp add: sorted_reverse_def)

lemma length_sorted_reverse [simp]: "length (sorted_reverse key xs) = length xs"
  by (simp add: sorted_reverse_def)

lemma sorted_reverse_desc: "sorted (rev (map key (sorted_reverse key xs)))"
  by (simp add: sorted_reverse_def rev_map[symmetric])

lemma sorted_reverse_stable:
  "filter (\<lambda>x. key x = k) (sorted_reverse key xs) = filter (\<lambda>x. key x = k) xs"
  by (simp add: sorted_reverse_def rev_filter[symmetric] sort_key_stable)

lemma sorted_reverse_nth_mono:
  assumes "i \<le> j" "j < length xs"
  shows "key (sorted_reverse key xs ! j) \<le> key (sorted_reverse key xs ! i)"
proof -
  let ?ys = "map key (sorted_reverse key xs)"
  have "?ys ! j \<le> ?ys ! i"
    using sorted_reverse_desc[of key xs] assms by (intro sorted_rev_nth_mono) simp_all
  with assms show ?thesis by simp
qed

lemma sorted_reverse_before:
  assumes "i < length xs" "j < length xs"
    and "key (sorted_reverse key xs ! i) < key (sorted_reverse key xs ! j)"
  shows "j < i"
proof (rule ccontr)
  assume "\<not> j < i"
  then have "i \<le> j" by simp
  from sorted_reverse_nth_mono[OF this assms(2), of key] assms(3) show False by simp
qed

lemma sorted_reverse_top:
  assumes p: "p \<in> set xs" and top: "\<forall>r\<in>set xs. r \<noteq> p \<longrightarrow> key r < key p"
  shows "\<exists>rest. sorted_reverse key xs = p # rest"
proof -
  let ?ys = "sorted_reverse key xs"
  from p have ne: "?ys \<noteq> []" by (metis empty_iff list.set(1) set_sorted_reverse)
  then obtain y rest where ys: "?ys = y # rest" by (cases ?ys) auto
  have "y = p"
  proof (rule ccontr)
    assume n: "y \<noteq> p"
    have "y \<in> set xs" using ys by (metis list.set_intros(1) set_sorted_reverse)
    with n top have lt: "key y < key p" by blast
    from p have "p \<in> set ?ys" by simp
    then obtain j where j: "j < length ?ys" "?ys ! j = p" by (metis in_set_conv_nth)
    then have "j < length xs" by simp
    from sorted_reverse_nth_mono[OF _ this, of 0 key] j ys have "key p \<le> key y" by simp
    with lt show False by simp
  qed
  with ys show ?thesis by blast
qed

subsection \<open>The record before and between the field choices\<close>

lemma fold_columns:
  "fold (\<lambda>col out. if col \<noteq> p then out(col \<mapsto> VNone) else out) cols out0 k =
     (if k \<in> set cols \<and> k \<noteq> p then Some VNone else out0 k)"
  by (induction cols arbitrary: out0) auto

lemma fold_sources:
  "fold (\<lambda>f out. out(f @ a \<mapsto> VNone, f @ b \<mapsto> VNone, f @ c \<mapsto> VNone)) fs out0 k =
     (if \<exists>f\<in>set fs. k = f @ a \<or> k = f @ b \<or> k = f @ c then Some VNone else out0 k)"
  by (induction fs arbitrary: out0) auto

lemma init_out_apply:
  "init_out pid k =
     (if \<exists>f\<in>set base_fields. k = f @ ''__source_note_id'' \<or> k = f @ ''__source_note_type'' \<or>
           k = f @ ''__source_note_date'' then Some VNone
      else if k \<in> set PHENOTYPE_COLUMNS_V1 \<and> k \<noteq> ''patient_id'' then Some VNone
      else if k = ''patient_id'' then Some pid else None)"
  unfolding init_out_def Let_def fold_sources fold_columns by simp

lemma base_fields_columns: "\<forall>f\<in>set base_fields. f \<in> set PHENOTYPE_COLUMNS_V1 \<and> f \<noteq> ''patient_id''"
  by (simp add: base_fields_def PHENOTYPE_COLUMNS_V1_def)

lemma init_out_base: "f \<in> set base_fields \<Longrightarrow> init_out pid f = Some VNone"
  using base_fields_columns by (simp add: init_out_apply)

lemma init_out_her2:
  "init_out pid ''her2_final_status'' = Some VNone" "init_out pid ''her2_confidence'' = Some VNone"
  by (simp_all add: init_out_apply PHENOTYPE_COLUMNS_V1_def)

lemma set_confidence_frame:
  "k \<notin> set [''er_confidence'', ''pr_confidence'', ''ki67_confidence'', ''histology_confidence'']
   \<Longrightarrow> set_confidence f b out k = out k"
  by (simp add: set_confidence_def)

lemma pick_field_frame:
  assumes "k \<noteq> g" "k \<noteq> g @ ''__source_note_id''" "k \<noteq> g @ ''__source_note_type''"
    "k \<noteq> g @ ''__source_note_date''"
    "k \<notin> set [''er_confidence'', ''pr_confidence'', ''ki67_confidence'', ''histology_confidence'']"
  shows "pick_field ranked ev pid g out k = out k"
  using assms unfolding pick_field_def Let_def
  by (simp add: set_confidence_frame split: option.splits)

lemma fold_pick_field_frame:
  assumes "\<forall>g\<in>set gs. k \<noteq> g \<and> k \<noteq> g @ ''__source_note_id'' \<and> k \<noteq> g @ ''__source_note_type'' \<and>
    k \<noteq> g @ ''__source_note_date''"
    and "k \<notin> set [''er_confidence'', ''pr_confidence'', ''ki67_confidence'', ''histology_confidence'']"
  shows "fold (pick_field ranked ev pid) gs out k = out k"
  using assms by (induction gs arbitrary: out) (simp_all add: pick_field_frame)

lemma base_fields_split:
  assumes "f \<in> set base_fields"
  shows "\<exists>pre post. base_fields = pre @ f # post \<and> f \<notin> set pre \<and> f \<notin> set post"
proof -
  have d: "distinct base_fields" by (simp add: base_fields_def)
  from assms obtain pre post where s: "base_fields = pre @ f # post" by (meson split_list)
  with d have "f \<notin> set pre \<and> f \<notin> set post" by (metis distinct_append distinct.simps(2) disjoint_iff list.set_intros(1) not_distinct_conv_prefix)
  with s show ?thesis by blast
qed

lemma base_fields_no_clash:
  "\<forall>f\<in>set base_fields. \<forall>g\<in>set base_fields.
     f \<noteq> g @ ''__source_note_id'' \<and> f \<noteq> g @ ''__source_note_type'' \<and> f \<noteq> g @ ''__source_note_date''"
  by (simp add: base_fields_def)

lemma base_fields_not_conf:
  "\<forall>f\<in>set base_fields.
     f \<notin> set [''er_confidence'', ''pr_confidence'', ''ki67_confidence'', ''histology_confidence'']"
  by (simp add: base_fields_def)

lemma pick_field_own:
  assumes "f \<notin> set [''er_confidence'', ''pr_confidence'', ''ki67_confidence'', ''histology_confidence'']"
  shows "pick_field ranked ev pid f out f =
     (case choose_row ev pid f ranked of None \<Rightarrow> out f | Some r \<Rightarrow> Some (dict_get r f))"
  using assms unfolding pick_field_def
  by (simp add: set_confidence_frame split: option.splits)

lemma fold_pick_field_own:
  assumes f: "f \<in> set base_fields"
  shows "fold (pick_field ranked ev pid) base_fields (init_out pid) f =
     (case choose_row ev pid f ranked of None \<Rightarrow> Some VNone | Some r \<Rightarrow> Some (dict_get r f))"
proof -
  from base_fields_split[OF f] obtain pre post
    where s: "base_fields = pre @ f # post" and n: "f \<notin> set pre" "f \<notin> set post" by blast
  have sub: "set pre \<subseteq> set base_fields" "set post \<subseteq> set base_fields" unfolding s by auto
  have nc: "f \<notin> set [''er_confidence'', ''pr_confidence'', ''ki67_confidence'', ''histology_confidence'']"
    using base_fields_not_conf f by blast
  have fr: "\<forall>g\<in>set gs. f \<noteq> g \<and> f \<noteq> g @ ''__source_note_id'' \<and> f \<noteq> g @ ''__source_note_type'' \<and>
      f \<noteq> g @ ''__source_note_date''" if "set gs \<subseteq> set base_fields" "f \<notin> set gs" for gs
    using that base_fields_no_clash f by blast
  let ?pk = "pick_field ranked ev pid"
  have "fold ?pk base_fields (init_out pid) f = fold ?pk post (?pk f (fold ?pk pre (init_out pid))) f"
    by (simp add: s)
  also have "\<dots> = ?pk f (fold ?pk pre (init_out pid)) f"
    by (rule fold_pick_field_frame[OF fr[OF sub(2) n(2)] nc])
  also have "\<dots> = (case choose_row ev pid f ranked of None \<Rightarrow> fold ?pk pre (init_out pid) f
       | Some r \<Rightarrow> Some (dict_get r f))"
    by (rule pick_field_own[OF nc])
  also have "fold ?pk pre (init_out pid) f = init_out pid f"
    by (rule fold_pick_field_frame[OF fr[OF sub(1) n(1)] nc])
  finally show ?thesis by (simp add: init_out_base[OF f] split: option.splits)
qed

lemma write_her2_frame:
  "k \<noteq> ''her2_final_status'' \<Longrightarrow> k \<noteq> ''her2_confidence'' \<Longrightarrow> write_her2 out k = out k"
  by (simp add: write_her2_def Let_def)

lemma aggregate_patient_nonempty:
  assumes "note_rows \<noteq> []" "truthy (dict_get (hd note_rows) ''patient_id'')"
  shows "aggregate_patient dtp note_rows ev =
     write_her2 (fold (pick_field (rank_notes dtp note_rows) ev (dict_get (hd note_rows) ''patient_id''))
        base_fields (init_out (dict_get (hd note_rows) ''patient_id'')))"
  using assms by (cases note_rows) (simp_all add: aggregate_patient_def Let_def)

lemma aggregate_patient_base_field:
  assumes "note_rows \<noteq> []" "truthy (dict_get (hd note_rows) ''patient_id'')" "f \<in> set base_fields"
  shows "dict_get (aggregate_patient dtp note_rows ev) f =
     (case choose_row ev (dict_get (hd note_rows) ''patient_id'') f (rank_notes dtp note_rows) of
        None \<Rightarrow> VNone | Some r \<Rightarrow> dict_get r f)"
proof -
  have "f \<noteq> ''her2_final_status''" "f \<noteq> ''her2_confidence''"
    using assms(3) by (auto simp: base_fields_def)
  then have m: "aggregate_patient dtp note_rows ev f =
     (case choose_row ev (dict_get (hd note_rows) ''patient_id'') f (rank_notes dtp note_rows) of
        None \<Rightarrow> Some VNone | Some r \<Rightarrow> Some (dict_get r f))"
    unfolding aggregate_patient_nonempty[OF assms(1,2)]
    by (simp add: write_her2_frame fold_pick_field_own[OF assms(3)])
  show ?thesis by (subst dict_get_def) (simp add: m split: option.splits)
qed

lemma first_nonempty_find:
  "first_nonempty f ranked = find (\<lambda>r. \<not> is_empty_val (dict_get r f)) ranked"
  by (induction ranked) simp_all

lemma evidence_loop_no_clean:
  assumes "\<forall>e\<in>set ev. VStr (ev_patient_id e) = pid \<and> ev_field e = f \<longrightarrow> ev_is_negated e \<or> ev_is_uncertain e"
  shows "\<not> fst (evidence_loop ev pid f tv a)"
  using assms by (induction ev arbitrary: a) (auto simp: Let_def ev_entity_def)

lemma first_clean_none:
  assumes "\<forall>e\<in>set ev. VStr (ev_patient_id e) = pid \<and> ev_field e = f \<longrightarrow> ev_is_negated e \<or> ev_is_uncertain e"
  shows "first_clean ev pid f ranked = None"
  by (induction ranked) (simp_all add: Let_def evidence_support_def evidence_loop_no_clean[OF assms])

lemma evidence_loop_fst:
  "fst (evidence_loop ev pid f tv a) \<longleftrightarrow>
     (\<exists>e\<in>set ev. VStr (ev_patient_id e) = pid \<and> ev_field e = f \<and> norm_val (ev_value e) = tv
        \<and> \<not> ev_is_negated e \<and> \<not> ev_is_uncertain e)"
  by (induction ev arbitrary: a) (auto simp: Let_def ev_entity_def)

lemma evidence_loop_snd:
  "snd (evidence_loop ev pid f tv a) \<longleftrightarrow>
     a \<or> (\<exists>e\<in>set ev. VStr (ev_patient_id e) = pid \<and> ev_field e = f \<and> norm_val (ev_value e) = tv)"
  by (induction ev arbitrary: a) (auto simp: Let_def ev_entity_def)

lemma note_score_snd_none:
  "parse_date dtparse d = None \<Longrightarrow> snd (note_score dtparse nt d) = 0"
  by (simp add: note_score_def)

lemma note_score_snd_pos:
  assumes "\<forall>s n. dtparse s = Some n \<longrightarrow> 1 \<le> n" "parse_date dtparse d \<noteq> None"
  shows "0 < snd (note_score dtparse nt d)"
proof -
  from assms(2) obtain n where n: "parse_date dtparse d = Some n" by auto
  then obtain s where "dtparse s = Some n" by (auto simp: parse_date_def split: if_splits pyval.splits)
  with assms(1) have "1 \<le> n" by blast
  with n show ?thesis by (simp add: note_score_def)
qed

lemma fold_her2_untouched:
  "fold (pick_field ranked ev pid) base_fields (init_out pid) ''her2_final_status'' = Some VNone"
  "fold (pick_field ranked ev pid) base_fields (init_out pid) ''her2_confidence'' = Some VNone"
proof -
  have a: "\<forall>g\<in>set base_fields. ''her2_final_status'' \<noteq> g \<and> ''her2_final_status'' \<noteq> g @ ''__source_note_id'' \<and>
     ''her2_final_status'' \<noteq> g @ ''__source_note_type'' \<and> ''her2_final_status'' \<noteq> g @ ''__source_note_date''"
    by (simp add: base_fields_def)
  have b: "\<forall>g\<in>set base_fields. ''her2_confidence'' \<noteq> g \<and> ''her2_confidence'' \<noteq> g @ ''__source_note_id'' \<and>
     ''her2_confidence'' \<noteq> g @ ''__source_note_type'' \<and> ''her2_confidence'' \<noteq> g @ ''__source_note_date''"
    by (simp add: base_fields_def)
  show "fold (pick_field ranked ev pid) base_fields (init_out pid) ''her2_final_status'' = Some VNone"
    by (subst fold_pick_field_frame[OF a]) (simp_all add: init_out_her2)
  show "fold (pick_field ranked ev pid) base_fields (init_out pid) ''her2_confidence'' = Some VNone"
    by (subst fold_pick_field_frame[OF b]) (simp_all add: init_out_her2)
qed

lemma write_her2_result:
  assumes "out ''her2_final_status'' = Some VNone" "out ''her2_confidence'' = Some VNone"
  shows "(dict_get (write_her2 out) ''her2_final_status'', dict_get (write_her2 out) ''her2_confidence'')
     = compute_her2_final (dict_get (write_her2 out) ''her2_ihc_score'') (dict_get (write_her2 out) ''her2_fish'')"
proof -
  have g: "dict_get (write_her2 out) ''her2_ihc_score'' = dict_get out ''her2_ihc_score''"
       "dict_get (write_her2 out) ''her2_fish'' = dict_get out ''her2_fish''"
    by (simp_all add: dict_get_def write_her2_frame)
  define res where "res = compute_her2_final (dict_get out ''her2_ihc_score'') (dict_get out ''her2_fish'')"
  have "dict_get (write_her2 out) ''her2_final_status'' = fst res"
    using assms unfolding write_her2_def res_def[symmetric] by (simp add: Let_def dict_get_def)
  moreover have "dict_get (write_her2 out) ''her2_confidence'' = snd res"
    using assms unfolding write_her2_def res_def[symmetric] by (simp add: Let_def dict_get_def)
  ultimately show ?thesis unfolding g res_def by simp
qed

lemma confidence_bucket_nonempty: "confidence_bucket nt \<noteq> []"
  by (simp add: confidence_bucket_def Let_def)

lemma fold_preserves:
  "(\<forall>g\<in>set gs. \<forall>out. Q out \<longrightarrow> Q (h g out)) \<Longrightarrow> Q out \<Longrightarrow> Q (fold h gs out)"
  by (induction gs arbitrary: out) simp_all

lemma set_confidence_preserved:
  assumes o: "out k = Some (VStr b)" and b: "b \<noteq> []"
    and k: "k = ''er_confidence'' \<and> g \<noteq> ''er_status'' \<or> k = ''pr_confidence'' \<and> g \<noteq> ''pr_status'' \<or>
            k = ''ki67_confidence'' \<and> g \<noteq> ''ki67_percent'' \<or> k = ''histology_confidence'' \<and> g \<noteq> ''histology''"
  shows "set_confidence g bk out k = Some (VStr b)"
  using k
proof (elim disjE conjE)
  assume "k = ''er_confidence''" "g \<noteq> ''er_status''"
  with o b show ?thesis by (simp add: set_confidence_def py_or_def dict_get_def)
next
  assume "k = ''pr_confidence''" "g \<noteq> ''pr_status''"
  with o b show ?thesis by (simp add: set_confidence_def py_or_def dict_get_def)
next
  assume "k = ''ki67_confidence''" "g \<noteq> ''ki67_percent''"
  with o b show ?thesis by (simp add: set_confidence_def py_or_def dict_get_def)
next
  assume "k = ''histology_confidence''" "g \<noteq> ''histology''"
  with o b show ?thesis by (simp add: set_confidence_def py_or_def dict_get_def)
qed

lemma pick_field_conf_preserved:
  assumes o: "out k = Some (VStr b)" and b: "b \<noteq> []"
    and k: "k = ''er_confidence'' \<and> g \<noteq> ''er_status'' \<or> k = ''pr_confidence'' \<and> g \<noteq> ''pr_status'' \<or>
            k = ''ki67_confidence'' \<and> g \<noteq> ''ki67_percent'' \<or> k = ''histology_confidence'' \<and> g \<noteq> ''histology''"
    and n: "k \<noteq> g" "k \<noteq> g @ ''__source_note_id''" "k \<noteq> g @ ''__source_note_type''"
      "k \<noteq> g @ ''__source_note_date''"
  shows "pick_field ranked ev pid g out k = Some (VStr b)"
proof (cases "choose_row ev pid g ranked")
  case None
  then show ?thesis using o by (simp add: pick_field_def)
next
  case (Some r)
  let ?out = "out(g \<mapsto> dict_get r g, g @ ''__source_note_id'' \<mapsto> dict_get r ''note_id'',
                    g @ ''__source_note_type'' \<mapsto> dict_get r ''note_type'',
                    g @ ''__source_note_date'' \<mapsto> dict_get r ''note_date'')"
  have "?out k = Some (VStr b)" using o n by simp
  then have "set_confidence g (confidence_bucket (dict_get r ''note_type'')) ?out k = Some (VStr b)"
    using b k by (rule set_confidence_preserved)
  then show ?thesis by (simp add: pick_field_def Some)
qed

lemma pick_field_conf_own:
  assumes "choose_row ev pid f ranked = Some r"
    and "f = ''er_status'' \<and> k = ''er_confidence'' \<or> f = ''pr_status'' \<and> k = ''pr_confidence'' \<or>
         f = ''ki67_percent'' \<and> k = ''ki67_confidence'' \<or> f = ''histology'' \<and> k = ''histology_confidence''"
  shows "pick_field ranked ev pid f out k = Some (VStr (confidence_bucket (dict_get r ''note_type'')))"
  using assms(2) unfolding pick_field_def assms(1)
  by (elim disjE conjE) (simp_all add: set_confidence_def)

lemma fold_conf:
  assumes c: "choose_row ev pid f ranked = Some r"
    and fk: "f = ''er_status'' \<and> k = ''er_confidence'' \<or> f = ''pr_status'' \<and> k = ''pr_confidence'' \<or>
         f = ''ki67_percent'' \<and> k = ''ki67_confidence'' \<or> f = ''histology'' \<and> k = ''histology_confidence''"
  shows "fold (pick_field ranked ev pid) base_fields (init_out pid) k
     = Some (VStr (confidence_bucket (dict_get r ''note_type'')))"
proof -
  let ?pk = "pick_field ranked ev pid" and ?b = "confidence_bucket (dict_get r ''note_type'')"
  let ?Q = "\<lambda>out. out k = Some (VStr ?b)"
  have own: "?Q (?pk f out)" for out by (rule pick_field_conf_own[OF c fk])
  note pres = pick_field_conf_preserved[where b = ?b, OF _ confidence_bucket_nonempty]
  have fp: "?Q (fold ?pk gs (?pk f X))" if "\<forall>g\<in>set gs. \<forall>out. ?Q out \<longrightarrow> ?Q (?pk g out)" for gs X
    using that own[of X] by (rule fold_preserves[where Q = ?Q and h = ?pk])
  from fk show ?thesis
  proof (elim disjE conjE)
    assume a: "f = ''er_status''" "k = ''er_confidence''"
    have "?Q (fold ?pk (tl base_fields) (?pk f (init_out pid)))"
      by (rule fp) (simp add: a base_fields_def pres)
    then show ?thesis by (simp add: a base_fields_def)
  next
    assume a: "f = ''pr_status''" "k = ''pr_confidence''"
    have "?Q (fold ?pk (drop 2 base_fields) (?pk f (fold ?pk (take 1 base_fields) (init_out pid))))"
      by (rule fp) (simp add: a base_fields_def pres)
    then show ?thesis by (simp add: a base_fields_def)
  next
    assume a: "f = ''ki67_percent''" "k = ''ki67_confidence''"
    have "?Q (fold ?pk (drop 5 base_fields) (?pk f (fold ?pk (take 4 base_fields) (init_out pid))))"
      by (rule fp) (simp add: a base_fields_def pres)
    then show ?thesis by (simp add: a base_fields_def)
  next
    assume a: "f = ''histology''" "k = ''histology_confidence''"
    have "?Q (fold ?pk (drop 6 base_fields) (?pk f (fold ?pk (take 5 base_fields) (init_out pid))))"
      by (rule fp) (simp add: a base_fields_def pres)
    then show ?thesis by (simp add: a base_fields_def)
  qed
qed

lemma first_clean_head:
  assumes "\<not> is_empty_val (dict_get p f)" "fst (evidence_support ev pid f (dict_get p f))"
  shows "choose_row ev pid f (p # rest) = Some p"
  using assms by (simp add: choose_row_def Let_def)

lemma base_fields_src_no_clash:
  "\<forall>f\<in>set base_fields. \<forall>g\<in>set base_fields. \<forall>s\<in>set [''__source_note_id'', ''__source_note_type'', ''__source_note_date''].
     f @ s \<noteq> g \<and>
     f @ s \<notin> set [''er_confidence'', ''pr_confidence'', ''ki67_confidence'', ''histology_confidence'']"
  by (simp add: base_fields_def)

lemma suffix_no_clash:
  "f @ ''__source_note_id'' \<noteq> g @ ''__source_note_type''"
  "f @ ''__source_note_id'' \<noteq> g @ ''__source_note_date''"
  "f @ ''__source_note_type'' \<noteq> g @ ''__source_note_id''"
  "f @ ''__source_note_date'' \<noteq> g @ ''__source_note_id''"
  "f @ ''__source_note_type'' \<noteq> g @ ''__source_note_date''"
  "f @ ''__source_note_date'' \<noteq> g @ ''__source_note_type''"
proof -
  have r: "a @ s \<noteq> b @ t" if "take 4 (rev s) \<noteq> take 4 (rev t)" "4 \<le> length s" "4 \<le> length t" for a b s t :: string
  proof
    assume "a @ s = b @ t"
    then have "take 4 (rev (a @ s)) = take 4 (rev (b @ t))" by simp
    with that show False by simp
  qed
  show "f @ ''__source_note_id'' \<noteq> g @ ''__source_note_type''" by (rule r) simp_all
  show "f @ ''__source_note_id'' \<noteq> g @ ''__source_note_date''" by (rule r) simp_all
  show "f @ ''__source_note_type'' \<noteq> g @ ''__source_note_id''" by (rule r) simp_all
  show "f @ ''__source_note_date'' \<noteq> g @ ''__source_note_id''" by (rule r) simp_all
  show "f @ ''__source_note_type'' \<noteq> g @ ''__source_note_date''" by (rule r) simp_all
  show "f @ ''__source_note_date'' \<noteq> g @ ''__source_note_type''" by (rule r) simp_all
qed

lemma pick_field_src_own:
  assumes c: "choose_row ev pid f ranked = Some r"
    and nc: "f @ ''__source_note_id'' \<notin> set [''er_confidence'', ''pr_confidence'', ''ki67_confidence'', ''histology_confidence'']"
       "f @ ''__source_note_type'' \<notin> set [''er_confidence'', ''pr_confidence'', ''ki67_confidence'', ''histology_confidence'']"
       "f @ ''__source_note_date'' \<notin> set [''er_confidence'', ''pr_confidence'', ''ki67_confidence'', ''histology_confidence'']"
  shows "pick_field ranked ev pid f out (f @ ''__source_note_id'') = Some (dict_get r ''note_id'')"
    and "pick_field ranked ev pid f out (f @ ''__source_note_type'') = Some (dict_get r ''note_type'')"
    and "pick_field ranked ev pid f out (f @ ''__source_note_date'') = Some (dict_get r ''note_date'')"
  unfolding pick_field_def c
  by (simp_all add: set_confidence_frame[OF nc(1)] set_confidence_frame[OF nc(2)] set_confidence_frame[OF nc(3)])

lemma fold_src:
  assumes f: "f \<in> set base_fields" and c: "choose_row ev pid f ranked = Some r"
  shows "fold (pick_field ranked ev pid) base_fields (init_out pid) (f @ ''__source_note_id'') = Some (dict_get r ''note_id'')"
    and "fold (pick_field ranked ev pid) base_fields (init_out pid) (f @ ''__source_note_type'') = Some (dict_get r ''note_type'')"
    and "fold (pick_field ranked ev pid) base_fields (init_out pid) (f @ ''__source_note_date'') = Some (dict_get r ''note_date'')"
proof -
  from base_fields_split[OF f] obtain pre post
    where s: "base_fields = pre @ f # post" and n: "f \<notin> set pre" "f \<notin> set post" by blast
  have sub: "set post \<subseteq> set base_fields" unfolding s by auto
  let ?pk = "pick_field ranked ev pid"
  have nc: "f @ x \<notin> set [''er_confidence'', ''pr_confidence'', ''ki67_confidence'', ''histology_confidence'']"
    if "x \<in> set [''__source_note_id'', ''__source_note_type'', ''__source_note_date'']" for x
    using base_fields_src_no_clash f that by blast
  have ng: "f @ x \<noteq> g" if "x \<in> set [''__source_note_id'', ''__source_note_type'', ''__source_note_date'']" "g \<in> set post" for x g
    using base_fields_src_no_clash f that sub by blast
  have sp: "fold ?pk base_fields (init_out pid) = fold ?pk post (?pk f (fold ?pk pre (init_out pid)))"
    by (simp add: s)
  have fr: "fold ?pk post out (f @ x) = out (f @ x)"
    if x: "x \<in> set [''__source_note_id'', ''__source_note_type'', ''__source_note_date'']" for x out
  proof (rule fold_pick_field_frame[OF _ nc[OF x]], intro ballI conjI)
    fix g assume g: "g \<in> set post"
    then have gf: "g \<noteq> f" using n by auto
    show "f @ x \<noteq> g" by (rule ng[OF x g])
    show "f @ x \<noteq> g @ ''__source_note_id''" using x gf suffix_no_clash by auto
    show "f @ x \<noteq> g @ ''__source_note_type''" using x gf suffix_no_clash by auto
    show "f @ x \<noteq> g @ ''__source_note_date''" using x gf suffix_no_clash by auto
  qed
  note own = pick_field_src_own[OF c nc nc nc]
  show "fold ?pk base_fields (init_out pid) (f @ ''__source_note_id'') = Some (dict_get r ''note_id'')"
    unfolding sp by (subst fr) (simp_all add: own)
  show "fold ?pk base_fields (init_out pid) (f @ ''__source_note_type'') = Some (dict_get r ''note_type'')"
    unfolding sp by (subst fr) (simp_all add: own)
  show "fold ?pk base_fields (init_out pid) (f @ ''__source_note_date'') = Some (dict_get r ''note_date'')"
    unfolding sp by (subst fr) (simp_all add: own)
qed

subsection \<open>What aggregation writes for a chosen row\<close>

lemma precedence_table:
  "fst (note_score dtparse nt nd) =
     (if nt = VStr ''Pathology'' \<or> nt = VStr ''SurgicalPathology'' \<or> nt = VStr ''PathologyAddendum'' \<or>
         nt = VStr ''Addendum'' then 100
      else if nt = VStr ''OncologyConsult'' then 70
      else if nt = VStr ''Radiology'' then 40
      else if nt = VStr ''ProgressNote'' then 30
      else 0)"
  by (simp add: note_score_def NOTE_TYPE_PRECEDENCE_def)

lemma src_not_her2:
  "\<forall>f\<in>set base_fields. \<forall>s\<in>set [''__source_note_id'', ''__source_note_type'', ''__source_note_date''].
     f @ s \<noteq> ''her2_final_status'' \<and> f @ s \<noteq> ''her2_confidence''"
  by (simp add: base_fields_def)

lemma pathology_first:
  assumes p: "p \<in> set note_rows" and t: "dict_get p ''note_type'' = VStr ''Pathology''"
    and o: "\<forall>r\<in>set note_rows. r \<noteq> p \<longrightarrow> dict_get r ''note_type'' = VStr ''Radiology''"
  shows "\<exists>rest. rank_notes dtparse note_rows = p # rest"
  unfolding rank_notes_def
proof (rule sorted_reverse_top[OF p], intro ballI impI)
  fix r assume "r \<in> set note_rows" "r \<noteq> p"
  with o have "dict_get r ''note_type'' = VStr ''Radiology''" by blast
  then have "fst (note_key dtparse r) = 40" by (simp add: note_key_def precedence_table)
  moreover have "fst (note_key dtparse p) = 100" using t by (simp add: note_key_def precedence_table)
  ultimately show "note_key dtparse r < note_key dtparse p" by (simp add: less_prod_def)
qed

lemma aggregate_chosen:
  assumes ne: "note_rows \<noteq> []" and pid: "truthy (dict_get (hd note_rows) ''patient_id'')"
    and f: "f \<in> set base_fields"
    and c: "choose_row ev (dict_get (hd note_rows) ''patient_id'') f (rank_notes dtparse note_rows) = Some r"
  shows "dict_get (aggregate_patient dtparse note_rows ev) f = dict_get r f"
    and "dict_get (aggregate_patient dtparse note_rows ev) (f @ ''__source_note_id'') = dict_get r ''note_id''"
    and "dict_get (aggregate_patient dtparse note_rows ev) (f @ ''__source_note_type'') = dict_get r ''note_type''"
    and "dict_get (aggregate_patient dtparse note_rows ev) (f @ ''__source_note_date'') = dict_get r ''note_date''"
proof -
  show "dict_get (aggregate_patient dtparse note_rows ev) f = dict_get r f"
    by (simp add: aggregate_patient_base_field[OF ne pid f] c)
  have n: "f @ s \<noteq> ''her2_final_status''" "f @ s \<noteq> ''her2_confidence''"
    if "s \<in> set [''__source_note_id'', ''__source_note_type'', ''__source_note_date'']" for s
    using src_not_her2 f that by blast+
  note a = aggregate_patient_nonempty[OF ne pid]
  show "dict_get (aggregate_patient dtparse note_rows ev) (f @ ''__source_note_id'') = dict_get r ''note_id''"
    unfolding a by (subst dict_get_def) (simp add: write_her2_frame n fold_src[OF f c])
  show "dict_get (aggregate_patient dtparse note_rows ev) (f @ ''__source_note_type'') = dict_get r ''note_type''"
    unfolding a by (subst dict_get_def) (simp add: write_her2_frame n fold_src[OF f c])
  show "dict_get (aggregate_patient dtparse note_rows ev) (f @ ''__source_note_date'') = dict_get r ''note_date''"
    unfolding a by (subst dict_get_def) (simp add: write_her2_frame n fold_src[OF f c])
qed

lemma aggregate_confidence:
  assumes ne: "note_rows \<noteq> []" and pid: "truthy (dict_get (hd note_rows) ''patient_id'')"
    and c: "choose_row ev (dict_get (hd note_rows) ''patient_id'') f (rank_notes dtparse note_rows) = Some r"
    and fk: "f = ''er_status'' \<and> k = ''er_confidence'' \<or> f = ''pr_status'' \<and> k = ''pr_confidence'' \<or>
         f = ''ki67_percent'' \<and> k = ''ki67_confidence'' \<or> f = ''histology'' \<and> k = ''histology_confidence''"
  shows "dict_get (aggregate_patient dtparse note_rows ev) k = VStr (confidence_bucket (dict_get r ''note_type''))"
proof -
  have "k \<noteq> ''her2_final_status''" "k \<noteq> ''her2_confidence''"
    using fk by (elim disjE conjE; simp)+
  then show ?thesis
    unfolding aggregate_patient_nonempty[OF ne pid]
    by (subst dict_get_def) (simp add: write_her2_frame fold_conf[OF c fk])
qed

lemma bucket_pathology: "confidence_bucket (VStr ''Pathology'') = ''pathology''"
  by code_simp

lemma example_note_get:
  "dict_get (example_note nid nt nd f v) ''patient_id'' = (if f = ''patient_id'' then v else VStr ''P1'')"
  "dict_get (example_note nid nt nd f v) ''note_type'' = (if f = ''note_type'' then v else VStr nt)"
  "dict_get (example_note nid nt nd f v) ''note_id'' = (if f = ''note_id'' then v else VStr nid)"
  "dict_get (example_note nid nt nd f v) ''note_date'' = (if f = ''note_date'' then v else nd)"
  "dict_get (example_note nid nt nd f v) f = v"
  by (simp_all add: example_note_def dict_get_def)

lemma rank_notes_single: "rank_notes dtparse [r] = [r]"
  by (simp add: rank_notes_def sorted_reverse_def)

section \<open>HER2 at the patient level\<close>

text \<open>
  C2 says the aggregator applies the reconciler of the specification. It does not: it has
  a function of its own, with other keyword tests and an "Unknown" outcome. The two differ
  on an IHC value as the recognizer delivers it ("HER2 2+") and on the FISH text
  "No amplification", and the aggregated record then carries "Unknown".
\<close>

theorem her2_aggregator_differs:
  "compute_her2_final (VStr ''HER2 2+'') VNone = (VStr ''Unknown'', VStr ''ihc'')
   \<and> her2_final_status (VStr ''HER2 2+'') VNone VNone = (VNone, VNone)
   \<and> compute_her2_final VNone (VStr ''No amplification'') = (VStr ''Positive'', VStr ''fish'')
   \<and> her2_final_status VNone (VStr ''No amplification'') VNone = (VStr ''Negative'', VStr ''fish'')
   \<and> dict_get (aggregate_patient example_dtparse
         [example_note ''N1'' ''Pathology'' VNone ''her2_ihc_score'' (VStr ''HER2 2+'')] [])
        ''her2_final_status'' = VStr ''Unknown''"
proof -
  have 1: "compute_her2_final (VStr ''HER2 2+'') VNone = (VStr ''Unknown'', VStr ''ihc'')" by code_simp
  have 2: "her2_final_status (VStr ''HER2 2+'') VNone VNone = (VNone, VNone)" by code_simp
  have 3: "compute_her2_final VNone (VStr ''No amplification'') = (VStr ''Positive'', VStr ''fish'')" by code_simp
  have 4: "her2_final_status VNone (VStr ''No amplification'') VNone = (VStr ''Negative'', VStr ''fish'')" by code_simp
  have 5: "dict_get (aggregate_patient example_dtparse
         [example_note ''N1'' ''Pathology'' VNone ''her2_ihc_score'' (VStr ''HER2 2+'')] [])
        ''her2_final_status'' = VStr ''Unknown''" by code_simp
  from 1 2 3 4 5 show ?thesis by simp
qed

text \<open>
  C2, as amended. The patient record's \<open>her2_final_status\<close> and \<open>her2_confidence\<close> are
  the result of \<open>compute_her2_final\<close> on the selected \<open>her2_ihc_score\<close> and \<open>her2_fish\<close>.
  That function agrees with the reconciler (explicit text absent) when the FISH value is
  absent or empty and the IHC score is in the reconciler's table, and when the FISH value
  is "amplified" or "not amplified" after trimming and lower-casing. It returns
  (none, none) only when both selected values are absent or empty. Otherwise both
  components are set: with a FISH value the status is one of Positive, Negative, Unknown
  and the confidence is "fish"; with no FISH value but an IHC value the status is one of
  Positive, Equivocal, Negative, Unknown and the confidence is "ihc". The status is
  "Unknown" exactly when nothing is recognised: the FISH text contains none of "ampl",
  "neg", "pos", or, without a FISH value, the IHC text passes none of the tests of the
  function. The record therefore carries both fields whenever one of the two selected
  values is present, and neither when both are absent or empty.
\<close>

theorem compute_her2_final_agreement:
  "(\<not> truthy fish \<and> truthy (ihc_to_status ihc) \<longrightarrow>
      compute_her2_final ihc fish = her2_final_status ihc fish VNone)
   \<and> (truthy fish \<and> lower (strip (py_str fish)) \<in> {''amplified'', ''not amplified''} \<longrightarrow>
      compute_her2_final ihc fish = her2_final_status ihc fish VNone)
   \<and> (compute_her2_final ihc fish = (VNone, VNone) \<longleftrightarrow> \<not> truthy fish \<and> \<not> truthy ihc)
   \<and> (note_rows \<noteq> [] \<and> truthy (dict_get (hd note_rows) ''patient_id'') \<longrightarrow>
      (dict_get (aggregate_patient dtparse note_rows evidence_rows) ''her2_final_status'',
       dict_get (aggregate_patient dtparse note_rows evidence_rows) ''her2_confidence'')
      = compute_her2_final (dict_get (aggregate_patient dtparse note_rows evidence_rows) ''her2_ihc_score'')
          (dict_get (aggregate_patient dtparse note_rows evidence_rows) ''her2_fish''))
   \<and> (truthy fish \<longrightarrow>
      fst (compute_her2_final ihc fish) \<in> {VStr ''Positive'', VStr ''Negative'', VStr ''Unknown''}
      \<and> snd (compute_her2_final ihc fish) = VStr ''fish'')
   \<and> (\<not> truthy fish \<and> truthy ihc \<longrightarrow>
      fst (compute_her2_final ihc fish)
        \<in> {VStr ''Positive'', VStr ''Equivocal'', VStr ''Negative'', VStr ''Unknown''}
      \<and> snd (compute_her2_final ihc fish) = VStr ''ihc'')
   \<and> (compute_her2_final ihc fish = (VStr ''Unknown'', VStr ''fish'') \<longleftrightarrow>
      truthy fish \<and> \<not> str_in ''ampl'' (lower (strip (py_str fish)))
      \<and> \<not> str_in ''neg'' (lower (strip (py_str fish)))
      \<and> \<not> str_in ''pos'' (lower (strip (py_str fish))))
   \<and> (compute_her2_final ihc fish = (VStr ''Unknown'', VStr ''ihc'') \<longleftrightarrow>
      \<not> truthy fish \<and> truthy ihc
      \<and> \<not> (str_in ''3'' (lower (strip (py_str ihc))) \<and> str_in ''+'' (lower (strip (py_str ihc))))
      \<and> \<not> startswith (lower (strip (py_str ihc))) ''3''
      \<and> \<not> (startswith (lower (strip (py_str ihc))) ''2'' \<and> str_in ''+'' (lower (strip (py_str ihc))))
      \<and> \<not> (startswith (lower (strip (py_str ihc))) ''1'' \<and> str_in ''+'' (lower (strip (py_str ihc))))
      \<and> \<not> startswith (lower (strip (py_str ihc))) ''0''
      \<and> lower (strip (py_str ihc)) \<notin> {''3'', ''2'', ''1'', ''0''})
   \<and> (note_rows \<noteq> [] \<and> truthy (dict_get (hd note_rows) ''patient_id'') \<longrightarrow>
      (if truthy (dict_get (aggregate_patient dtparse note_rows evidence_rows) ''her2_fish'')
          \<or> truthy (dict_get (aggregate_patient dtparse note_rows evidence_rows) ''her2_ihc_score'')
       then dict_get (aggregate_patient dtparse note_rows evidence_rows) ''her2_final_status''
              \<in> {VStr ''Positive'', VStr ''Equivocal'', VStr ''Negative'', VStr ''Unknown''}
            \<and> dict_get (aggregate_patient dtparse note_rows evidence_rows) ''her2_confidence''
              \<in> {VStr ''fish'', VStr ''ihc''}
       else dict_get (aggregate_patient dtparse note_rows evidence_rows) ''her2_final_status'' = VNone
            \<and> dict_get (aggregate_patient dtparse note_rows evidence_rows) ''her2_confidence'' = VNone))"
proof -
  have c1: "compute_her2_final ihc fish = her2_final_status ihc fish VNone"
    if "\<not> truthy fish \<and> truthy (ihc_to_status ihc)" for ihc fish
    using that by (intro ihc_agree) simp_all
  have c2: "compute_her2_final ihc fish = her2_final_status ihc fish VNone"
    if "truthy fish \<and> lower (strip (py_str fish)) \<in> {''amplified'', ''not amplified''}" for ihc fish
    using that by (intro fish_agree) simp_all
  have c3: "compute_her2_final ihc fish = (VNone, VNone) \<longleftrightarrow> \<not> truthy fish \<and> \<not> truthy ihc"
    for ihc fish
    unfolding compute_her2_final_def by (simp add: Let_def)
  have c4: "(dict_get (aggregate_patient dtparse note_rows evidence_rows) ''her2_final_status'',
       dict_get (aggregate_patient dtparse note_rows evidence_rows) ''her2_confidence'')
      = compute_her2_final (dict_get (aggregate_patient dtparse note_rows evidence_rows) ''her2_ihc_score'')
          (dict_get (aggregate_patient dtparse note_rows evidence_rows) ''her2_fish'')"
    if h: "note_rows \<noteq> [] \<and> truthy (dict_get (hd note_rows) ''patient_id'')"
  proof -
    from h have a: "note_rows \<noteq> []" "truthy (dict_get (hd note_rows) ''patient_id'')" by simp_all
    show ?thesis unfolding aggregate_patient_nonempty[OF a]
      by (rule write_her2_result) (rule fold_her2_untouched)+
  qed
  have c5: "truthy fish \<longrightarrow>
      fst (compute_her2_final ihc fish) \<in> {VStr ''Positive'', VStr ''Negative'', VStr ''Unknown''}
      \<and> snd (compute_her2_final ihc fish) = VStr ''fish''" for ihc fish
    unfolding compute_her2_final_def
    by (cases "truthy fish"; cases "truthy ihc") (auto simp add: Let_def)
  have c6: "\<not> truthy fish \<and> truthy ihc \<longrightarrow>
      fst (compute_her2_final ihc fish)
        \<in> {VStr ''Positive'', VStr ''Equivocal'', VStr ''Negative'', VStr ''Unknown''}
      \<and> snd (compute_her2_final ihc fish) = VStr ''ihc''" for ihc fish
    unfolding compute_her2_final_def
    by (cases "truthy fish"; cases "truthy ihc") (auto simp add: Let_def)
  have c7: "compute_her2_final ihc fish = (VStr ''Unknown'', VStr ''fish'') \<longleftrightarrow>
      truthy fish \<and> \<not> str_in ''ampl'' (lower (strip (py_str fish)))
      \<and> \<not> str_in ''neg'' (lower (strip (py_str fish)))
      \<and> \<not> str_in ''pos'' (lower (strip (py_str fish)))"
    unfolding compute_her2_final_def
    by (cases "truthy fish"; cases "truthy ihc") (auto simp add: Let_def)
  have c8: "compute_her2_final ihc fish = (VStr ''Unknown'', VStr ''ihc'') \<longleftrightarrow>
      \<not> truthy fish \<and> truthy ihc
      \<and> \<not> (str_in ''3'' (lower (strip (py_str ihc))) \<and> str_in ''+'' (lower (strip (py_str ihc))))
      \<and> \<not> startswith (lower (strip (py_str ihc))) ''3''
      \<and> \<not> (startswith (lower (strip (py_str ihc))) ''2'' \<and> str_in ''+'' (lower (strip (py_str ihc))))
      \<and> \<not> (startswith (lower (strip (py_str ihc))) ''1'' \<and> str_in ''+'' (lower (strip (py_str ihc))))
      \<and> \<not> startswith (lower (strip (py_str ihc))) ''0''
      \<and> lower (strip (py_str ihc)) \<notin> {''3'', ''2'', ''1'', ''0''}"
    unfolding compute_her2_final_def
    by (cases "truthy fish"; cases "truthy ihc") (auto simp add: Let_def)
  have c9: "if truthy (dict_get (aggregate_patient dtparse note_rows evidence_rows) ''her2_fish'')
          \<or> truthy (dict_get (aggregate_patient dtparse note_rows evidence_rows) ''her2_ihc_score'')
       then dict_get (aggregate_patient dtparse note_rows evidence_rows) ''her2_final_status''
              \<in> {VStr ''Positive'', VStr ''Equivocal'', VStr ''Negative'', VStr ''Unknown''}
            \<and> dict_get (aggregate_patient dtparse note_rows evidence_rows) ''her2_confidence''
              \<in> {VStr ''fish'', VStr ''ihc''}
       else dict_get (aggregate_patient dtparse note_rows evidence_rows) ''her2_final_status'' = VNone
            \<and> dict_get (aggregate_patient dtparse note_rows evidence_rows) ''her2_confidence'' = VNone"
    if h: "note_rows \<noteq> [] \<and> truthy (dict_get (hd note_rows) ''patient_id'')"
  proof -
    define out where "out = aggregate_patient dtparse note_rows evidence_rows"
    define fv where "fv = dict_get out ''her2_fish''"
    define iv where "iv = dict_get out ''her2_ihc_score''"
    have st: "dict_get out ''her2_final_status'' = fst (compute_her2_final iv fv)"
      and cf: "dict_get out ''her2_confidence'' = snd (compute_her2_final iv fv)"
      using c4[OF h] unfolding out_def fv_def iv_def by (simp_all add: prod_eq_iff)
    show ?thesis
    proof (cases "truthy fv")
      case True
      with c5[where fish = fv and ihc = iv] show ?thesis unfolding out_def[symmetric] fv_def[symmetric] iv_def[symmetric] st cf
        by auto
    next
      case nf: False
      show ?thesis
      proof (cases "truthy iv")
        case True
        with nf c6[where fish = fv and ihc = iv] show ?thesis
          unfolding out_def[symmetric] fv_def[symmetric] iv_def[symmetric] st cf by auto
      next
        case False
        with nf c3[where fish = fv and ihc = iv] show ?thesis
          unfolding out_def[symmetric] fv_def[symmetric] iv_def[symmetric] st cf by simp
      qed
    qed
  qed
  have k1: "\<not> truthy fish \<and> truthy (ihc_to_status ihc) \<longrightarrow>
      compute_her2_final ihc fish = her2_final_status ihc fish VNone"
    by (rule impI) (rule c1)
  have k2: "truthy fish \<and> lower (strip (py_str fish)) \<in> {''amplified'', ''not amplified''} \<longrightarrow>
      compute_her2_final ihc fish = her2_final_status ihc fish VNone"
    by (rule impI) (rule c2)
  show ?thesis
    by (intro conjI) (fact k1 k2 c3 c5 c6 c7 c8 | rule impI, erule c4 | rule impI, erule c9)+
qed

theorem compute_her2_final_agreement_witness:
  "compute_her2_final (VStr ''2 +'') VNone = (VStr ''Equivocal'', VStr ''ihc'')
   \<and> compute_her2_final (VStr ''3+'') (VStr ''Not amplified'') = (VStr ''Negative'', VStr ''fish'')
   \<and> compute_her2_final VNone (VStr []) = (VNone, VNone)
   \<and> (dict_get (aggregate_patient example_dtparse
          [example_note ''N1'' ''Pathology'' VNone ''her2_fish'' (VStr ''Amplified'')] []) ''her2_final_status'',
       dict_get (aggregate_patient example_dtparse
          [example_note ''N1'' ''Pathology'' VNone ''her2_fish'' (VStr ''Amplified'')] []) ''her2_confidence'')
      = (VStr ''Positive'', VStr ''fish'')
   \<and> snd (compute_her2_final (VStr ''3+'') (VStr ''see addendum'')) = VStr ''fish''
   \<and> snd (compute_her2_final (VStr ''weak staining'') VNone) = VStr ''ihc''
   \<and> compute_her2_final VNone (VStr ''pending'') = (VStr ''Unknown'', VStr ''fish'')
   \<and> compute_her2_final (VStr ''score 2+'') (VStr []) = (VStr ''Unknown'', VStr ''ihc'')
   \<and> dict_get (aggregate_patient example_dtparse
          [example_note ''N1'' ''Pathology'' VNone ''her2_fish'' (VStr ''pending'')] []) ''her2_final_status''
      = VStr ''Unknown''
   \<and> dict_get (aggregate_patient example_dtparse
          [example_note ''N1'' ''Pathology'' VNone ''her2_fish'' (VStr ''pending'')] []) ''her2_confidence''
      \<in> {VStr ''fish'', VStr ''ihc''}"
proof -
  let ?n = "example_note ''N1'' ''Pathology'' VNone ''her2_fish'' (VStr ''Amplified'')"
  let ?p = "example_note ''N1'' ''Pathology'' VNone ''her2_fish'' (VStr ''pending'')"
  have h1: "\<not> truthy VNone \<and> truthy (ihc_to_status (VStr ''2 +''))" by code_simp
  have r1: "her2_final_status (VStr ''2 +'') VNone VNone = (VStr ''Equivocal'', VStr ''ihc'')" by code_simp
  have h2: "truthy (VStr ''Not amplified'') \<and>
      lower (strip (py_str (VStr ''Not amplified''))) \<in> {''amplified'', ''not amplified''}" by code_simp
  have r2: "her2_final_status (VStr ''3+'') (VStr ''Not amplified'') VNone = (VStr ''Negative'', VStr ''fish'')"
    by code_simp
  have h4: "[?n] \<noteq> [] \<and> truthy (dict_get (hd [?n]) ''patient_id'')" by (simp add: example_note_get)
  have r4: "compute_her2_final VNone (VStr ''Amplified'') = (VStr ''Positive'', VStr ''fish'')" by code_simp
  have g: "dict_get (aggregate_patient example_dtparse [?n] []) ''her2_ihc_score'' = VNone"
     "dict_get (aggregate_patient example_dtparse [?n] []) ''her2_fish'' = VStr ''Amplified''"
    by code_simp+
  have h5: "truthy (VStr ''see addendum'')" by simp
  have h6: "\<not> truthy VNone \<and> truthy (VStr ''weak staining'')" by simp
  have h7: "truthy (VStr ''pending'') \<and> \<not> str_in ''ampl'' (lower (strip (py_str (VStr ''pending''))))
      \<and> \<not> str_in ''neg'' (lower (strip (py_str (VStr ''pending''))))
      \<and> \<not> str_in ''pos'' (lower (strip (py_str (VStr ''pending''))))" by code_simp
  have h8: "\<not> truthy (VStr []) \<and> truthy (VStr ''score 2+'')
      \<and> \<not> (str_in ''3'' (lower (strip (py_str (VStr ''score 2+''))))
           \<and> str_in ''+'' (lower (strip (py_str (VStr ''score 2+'')))))
      \<and> \<not> startswith (lower (strip (py_str (VStr ''score 2+'')))) ''3''
      \<and> \<not> (startswith (lower (strip (py_str (VStr ''score 2+'')))) ''2''
           \<and> str_in ''+'' (lower (strip (py_str (VStr ''score 2+'')))))
      \<and> \<not> (startswith (lower (strip (py_str (VStr ''score 2+'')))) ''1''
           \<and> str_in ''+'' (lower (strip (py_str (VStr ''score 2+'')))))
      \<and> \<not> startswith (lower (strip (py_str (VStr ''score 2+'')))) ''0''
      \<and> lower (strip (py_str (VStr ''score 2+''))) \<notin> {''3'', ''2'', ''1'', ''0''}" by code_simp
  have h9: "[?p] \<noteq> [] \<and> truthy (dict_get (hd [?p]) ''patient_id'')" by (simp add: example_note_get)
  have gp: "dict_get (aggregate_patient example_dtparse [?p] []) ''her2_ihc_score'' = VNone"
     "dict_get (aggregate_patient example_dtparse [?p] []) ''her2_fish'' = VStr ''pending''"
    by code_simp+
  note a = compute_her2_final_agreement[where dtparse = example_dtparse and note_rows = "[?n]"
      and evidence_rows = "[]"]
  note b = compute_her2_final_agreement[where dtparse = example_dtparse and note_rows = "[?p]"
      and evidence_rows = "[]"]
  have c1: "compute_her2_final (VStr ''2 +'') VNone = her2_final_status (VStr ''2 +'') VNone VNone"
    by (rule a[THEN conjunct1, THEN mp, OF h1])
  have c2: "compute_her2_final (VStr ''3+'') (VStr ''Not amplified'')
      = her2_final_status (VStr ''3+'') (VStr ''Not amplified'') VNone"
    by (rule a[THEN conjunct2, THEN conjunct1, THEN mp, OF h2])
  have c3: "compute_her2_final VNone (VStr []) = (VNone, VNone)"
    using a[where fish = "VStr []" and ihc = VNone, THEN conjunct2, THEN conjunct2, THEN conjunct1] by simp
  have c4: "(dict_get (aggregate_patient example_dtparse [?n] []) ''her2_final_status'',
       dict_get (aggregate_patient example_dtparse [?n] []) ''her2_confidence'')
      = compute_her2_final (dict_get (aggregate_patient example_dtparse [?n] []) ''her2_ihc_score'')
          (dict_get (aggregate_patient example_dtparse [?n] []) ''her2_fish'')"
    by (rule a[THEN conjunct2, THEN conjunct2, THEN conjunct2, THEN conjunct1, THEN mp, OF h4])
  have c5: "snd (compute_her2_final (VStr ''3+'') (VStr ''see addendum'')) = VStr ''fish''"
    by (rule a[THEN conjunct2, THEN conjunct2, THEN conjunct2, THEN conjunct2, THEN conjunct1,
          THEN mp, OF h5, THEN conjunct2])
  have c6: "snd (compute_her2_final (VStr ''weak staining'') VNone) = VStr ''ihc''"
    by (rule a[THEN conjunct2, THEN conjunct2, THEN conjunct2, THEN conjunct2, THEN conjunct2,
          THEN conjunct1, THEN mp, OF h6, THEN conjunct2])
  have c7: "compute_her2_final VNone (VStr ''pending'') = (VStr ''Unknown'', VStr ''fish'')"
    by (rule a[THEN conjunct2, THEN conjunct2, THEN conjunct2, THEN conjunct2, THEN conjunct2,
          THEN conjunct2, THEN conjunct1, THEN iffD2, OF h7])
  have c8: "compute_her2_final (VStr ''score 2+'') (VStr []) = (VStr ''Unknown'', VStr ''ihc'')"
    by (rule a[THEN conjunct2, THEN conjunct2, THEN conjunct2, THEN conjunct2, THEN conjunct2,
          THEN conjunct2, THEN conjunct2, THEN conjunct1, THEN iffD2, OF h8])
  have c9: "(dict_get (aggregate_patient example_dtparse [?p] []) ''her2_final_status'',
       dict_get (aggregate_patient example_dtparse [?p] []) ''her2_confidence'')
      = compute_her2_final (dict_get (aggregate_patient example_dtparse [?p] []) ''her2_ihc_score'')
          (dict_get (aggregate_patient example_dtparse [?p] []) ''her2_fish'')"
    by (rule b[THEN conjunct2, THEN conjunct2, THEN conjunct2, THEN conjunct1, THEN mp, OF h9])
  have c10: "dict_get (aggregate_patient example_dtparse [?p] []) ''her2_confidence''
      \<in> {VStr ''fish'', VStr ''ihc''}"
    using b[THEN conjunct2, THEN conjunct2, THEN conjunct2, THEN conjunct2, THEN conjunct2,
          THEN conjunct2, THEN conjunct2, THEN conjunct2, THEN mp, OF h9]
    unfolding gp by simp
  have s9: "dict_get (aggregate_patient example_dtparse [?p] []) ''her2_final_status'' = VStr ''Unknown''"
    using c9 unfolding gp c7 by simp
  have s4: "(dict_get (aggregate_patient example_dtparse [?n] []) ''her2_final_status'',
       dict_get (aggregate_patient example_dtparse [?n] []) ''her2_confidence'')
      = (VStr ''Positive'', VStr ''fish'')"
    unfolding c4 g r4 by (rule refl)
  have s1: "compute_her2_final (VStr ''2 +'') VNone = (VStr ''Equivocal'', VStr ''ihc'')"
    unfolding c1 r1 by (rule refl)
  have s2: "compute_her2_final (VStr ''3+'') (VStr ''Not amplified'') = (VStr ''Negative'', VStr ''fish'')"
    unfolding c2 r2 by (rule refl)
  from s1 s2 c3 s4 c5 c6 c7 c8 s9 c10 show ?thesis by (intro conjI)
qed

section \<open>Ranking of notes and the precedence of pathology\<close>

text \<open>
  C3. The ranked notes are in descending order of the key (precedence of the note type,
  ordinal of the note date); notes of equal key keep their order; the precedence is 100
  for Pathology, SurgicalPathology, PathologyAddendum and Addendum, 70 for
  OncologyConsult, 40 for Radiology, 30 for ProgressNote and 0 for everything else. So
  when a patient has a Pathology note whose value of a base field is not empty and has
  clean evidence, and every other note is a Radiology note, the Pathology value is
  chosen whatever the dates and the Radiology values are, its note is the source, and
  the confidence slot of the field is "pathology".
\<close>

theorem pathology_precedence:
  "sorted (rev (map (note_key dtparse) (rank_notes dtparse note_rows)))
   \<and> (\<forall>k. filter (\<lambda>r. note_key dtparse r = k) (rank_notes dtparse note_rows)
           = filter (\<lambda>r. note_key dtparse r = k) note_rows)
   \<and> fst (note_score dtparse nt nd) =
       (if nt = VStr ''Pathology'' \<or> nt = VStr ''SurgicalPathology'' \<or> nt = VStr ''PathologyAddendum'' \<or>
           nt = VStr ''Addendum'' then 100
        else if nt = VStr ''OncologyConsult'' then 70
        else if nt = VStr ''Radiology'' then 40
        else if nt = VStr ''ProgressNote'' then 30
        else 0)
   \<and> (p \<in> set note_rows \<and> dict_get p ''note_type'' = VStr ''Pathology''
      \<and> (\<forall>r\<in>set note_rows. r \<noteq> p \<longrightarrow> dict_get r ''note_type'' = VStr ''Radiology'')
      \<and> truthy (dict_get (hd note_rows) ''patient_id'')
      \<and> f \<in> set base_fields
      \<and> \<not> is_empty_val (dict_get p f)
      \<and> fst (evidence_support evidence_rows (dict_get (hd note_rows) ''patient_id'') f (dict_get p f))
      \<longrightarrow> dict_get (aggregate_patient dtparse note_rows evidence_rows) f = dict_get p f
        \<and> dict_get (aggregate_patient dtparse note_rows evidence_rows) (f @ ''__source_note_id'') = dict_get p ''note_id''
        \<and> dict_get (aggregate_patient dtparse note_rows evidence_rows) (f @ ''__source_note_type'') = VStr ''Pathology''
        \<and> dict_get (aggregate_patient dtparse note_rows evidence_rows) (f @ ''__source_note_date'') = dict_get p ''note_date''
        \<and> (f = ''er_status'' \<longrightarrow>
             dict_get (aggregate_patient dtparse note_rows evidence_rows) ''er_confidence'' = VStr ''pathology'')
        \<and> (f = ''pr_status'' \<longrightarrow>
             dict_get (aggregate_patient dtparse note_rows evidence_rows) ''pr_confidence'' = VStr ''pathology'')
        \<and> (f = ''ki67_percent'' \<longrightarrow>
             dict_get (aggregate_patient dtparse note_rows evidence_rows) ''ki67_confidence'' = VStr ''pathology'')
        \<and> (f = ''histology'' \<longrightarrow>
             dict_get (aggregate_patient dtparse note_rows evidence_rows) ''histology_confidence'' = VStr ''pathology''))"
proof (intro conjI impI allI)
  show "sorted (rev (map (note_key dtparse) (rank_notes dtparse note_rows)))"
    unfolding rank_notes_def by (rule sorted_reverse_desc)
  show "filter (\<lambda>r. note_key dtparse r = k) (rank_notes dtparse note_rows)
           = filter (\<lambda>r. note_key dtparse r = k) note_rows" for k
    unfolding rank_notes_def by (rule sorted_reverse_stable)
  show "fst (note_score dtparse nt nd) =
       (if nt = VStr ''Pathology'' \<or> nt = VStr ''SurgicalPathology'' \<or> nt = VStr ''PathologyAddendum'' \<or>
           nt = VStr ''Addendum'' then 100
        else if nt = VStr ''OncologyConsult'' then 70
        else if nt = VStr ''Radiology'' then 40
        else if nt = VStr ''ProgressNote'' then 30
        else 0)"
    by (rule precedence_table)
next
  assume h: "p \<in> set note_rows \<and> dict_get p ''note_type'' = VStr ''Pathology''
      \<and> (\<forall>r\<in>set note_rows. r \<noteq> p \<longrightarrow> dict_get r ''note_type'' = VStr ''Radiology'')
      \<and> truthy (dict_get (hd note_rows) ''patient_id'')
      \<and> f \<in> set base_fields
      \<and> \<not> is_empty_val (dict_get p f)
      \<and> fst (evidence_support evidence_rows (dict_get (hd note_rows) ''patient_id'') f (dict_get p f))"
  then have ne: "note_rows \<noteq> []" by auto
  from h have pid: "truthy (dict_get (hd note_rows) ''patient_id'')" and f: "f \<in> set base_fields" by simp_all
  from h pathology_first[of p note_rows dtparse] obtain rest
    where r: "rank_notes dtparse note_rows = p # rest" by blast
  have c: "choose_row evidence_rows (dict_get (hd note_rows) ''patient_id'') f (rank_notes dtparse note_rows) = Some p"
    unfolding r using h by (intro first_clean_head) simp_all
  have t: "dict_get p ''note_type'' = VStr ''Pathology''" using h by simp
  note ch = aggregate_chosen[OF ne pid f c]
  show "dict_get (aggregate_patient dtparse note_rows evidence_rows) f = dict_get p f" by (rule ch)
  show "dict_get (aggregate_patient dtparse note_rows evidence_rows) (f @ ''__source_note_id'') = dict_get p ''note_id''"
    by (rule ch)
  show "dict_get (aggregate_patient dtparse note_rows evidence_rows) (f @ ''__source_note_type'') = VStr ''Pathology''"
    using ch(3) t by simp
  show "dict_get (aggregate_patient dtparse note_rows evidence_rows) (f @ ''__source_note_date'') = dict_get p ''note_date''"
    by (rule ch)
  note cf = aggregate_confidence[OF ne pid c, unfolded t bucket_pathology]
  show "dict_get (aggregate_patient dtparse note_rows evidence_rows) ''er_confidence'' = VStr ''pathology''"
    if "f = ''er_status''" using that by (intro cf) simp
  show "dict_get (aggregate_patient dtparse note_rows evidence_rows) ''pr_confidence'' = VStr ''pathology''"
    if "f = ''pr_status''" using that by (intro cf) simp
  show "dict_get (aggregate_patient dtparse note_rows evidence_rows) ''ki67_confidence'' = VStr ''pathology''"
    if "f = ''ki67_percent''" using that by (intro cf) simp
  show "dict_get (aggregate_patient dtparse note_rows evidence_rows) ''histology_confidence'' = VStr ''pathology''"
    if "f = ''histology''" using that by (intro cf) simp
qed

theorem pathology_precedence_witness:
  "dict_get (aggregate_patient example_dtparse
       [example_note ''R'' ''Radiology'' (VStr ''2023-02-01'') ''er_status'' (VStr ''Positive''),
        example_note ''P'' ''Pathology'' (VStr ''2023-01-01'') ''er_status'' (VStr ''Negative'')]
       [example_evidence ''R'' ''er_status'' (VStr ''Positive'') False,
        example_evidence ''P'' ''er_status'' (VStr ''Negative'') False]) ''er_status'' = VStr ''Negative''
   \<and> dict_get (aggregate_patient example_dtparse
       [example_note ''R'' ''Radiology'' (VStr ''2023-02-01'') ''er_status'' (VStr ''Positive''),
        example_note ''P'' ''Pathology'' (VStr ''2023-01-01'') ''er_status'' (VStr ''Negative'')]
       [example_evidence ''R'' ''er_status'' (VStr ''Positive'') False,
        example_evidence ''P'' ''er_status'' (VStr ''Negative'') False]) ''er_status__source_note_id'' = VStr ''P''
   \<and> dict_get (aggregate_patient example_dtparse
       [example_note ''R'' ''Radiology'' (VStr ''2023-02-01'') ''er_status'' (VStr ''Positive''),
        example_note ''P'' ''Pathology'' (VStr ''2023-01-01'') ''er_status'' (VStr ''Negative'')]
       [example_evidence ''R'' ''er_status'' (VStr ''Positive'') False,
        example_evidence ''P'' ''er_status'' (VStr ''Negative'') False]) ''er_confidence'' = VStr ''pathology''"
proof -
  let ?R = "example_note ''R'' ''Radiology'' (VStr ''2023-02-01'') ''er_status'' (VStr ''Positive'')"
  let ?P = "example_note ''P'' ''Pathology'' (VStr ''2023-01-01'') ''er_status'' (VStr ''Negative'')"
  let ?ev = "[example_evidence ''R'' ''er_status'' (VStr ''Positive'') False,
        example_evidence ''P'' ''er_status'' (VStr ''Negative'') False]"
  have s: "fst (evidence_support ?ev (VStr ''P1'') ''er_status'' (VStr ''Negative''))" by code_simp
  have h: "?P \<in> set [?R, ?P] \<and> dict_get ?P ''note_type'' = VStr ''Pathology''
      \<and> (\<forall>r\<in>set [?R, ?P]. r \<noteq> ?P \<longrightarrow> dict_get r ''note_type'' = VStr ''Radiology'')
      \<and> truthy (dict_get (hd [?R, ?P]) ''patient_id'')
      \<and> ''er_status'' \<in> set base_fields
      \<and> \<not> is_empty_val (dict_get ?P ''er_status'')
      \<and> fst (evidence_support ?ev (dict_get (hd [?R, ?P]) ''patient_id'') ''er_status'' (dict_get ?P ''er_status''))"
    using s by (simp add: example_note_get is_empty_val_def base_fields_def)
  from pathology_precedence[of example_dtparse "[?R, ?P]" _ _ ?P "''er_status''" ?ev] h
  show ?thesis by (simp add: example_note_get)
qed

section \<open>The negation gap\<close>

text \<open>
  C4. When every evidence entry of the patient for a base field is negated, the first pass
  finds no row, and the field of the patient record is the value of the first ranked note
  whose value is not empty (None if there is none): the second pass looks at the value
  only, never at the flags.
\<close>

theorem negation_gap:
  "note_rows \<noteq> [] \<and> truthy (dict_get (hd note_rows) ''patient_id'') \<and> f \<in> set base_fields
   \<and> (\<forall>e\<in>set evidence_rows.
         VStr (ev_patient_id e) = dict_get (hd note_rows) ''patient_id'' \<and> ev_field e = f \<longrightarrow> ev_is_negated e)
   \<longrightarrow> first_clean evidence_rows (dict_get (hd note_rows) ''patient_id'') f (rank_notes dtparse note_rows) = None
     \<and> dict_get (aggregate_patient dtparse note_rows evidence_rows) f =
         (case find (\<lambda>r. \<not> is_empty_val (dict_get r f)) (rank_notes dtparse note_rows) of
            None \<Rightarrow> VNone
          | Some r \<Rightarrow> dict_get r f)"
proof (intro impI, elim conjE)
  assume a: "note_rows \<noteq> []" "truthy (dict_get (hd note_rows) ''patient_id'')" "f \<in> set base_fields"
    and e: "\<forall>e\<in>set evidence_rows.
         VStr (ev_patient_id e) = dict_get (hd note_rows) ''patient_id'' \<and> ev_field e = f \<longrightarrow> ev_is_negated e"
  then have n: "\<forall>e\<in>set evidence_rows.
           VStr (ev_patient_id e) = dict_get (hd note_rows) ''patient_id'' \<and> ev_field e = f
           \<longrightarrow> ev_is_negated e \<or> ev_is_uncertain e" by blast
  show "first_clean evidence_rows (dict_get (hd note_rows) ''patient_id'') f (rank_notes dtparse note_rows) = None
     \<and> dict_get (aggregate_patient dtparse note_rows evidence_rows) f =
         (case find (\<lambda>r. \<not> is_empty_val (dict_get r f)) (rank_notes dtparse note_rows) of
            None \<Rightarrow> VNone
          | Some r \<Rightarrow> dict_get r f)"
    unfolding aggregate_patient_base_field[OF a] choose_row_def first_clean_none[OF n]
    by (simp add: first_nonempty_find)
qed

theorem negation_gap_witness:
  "dict_get (aggregate_patient example_dtparse
      [example_note ''N1'' ''Pathology'' VNone ''er_status'' (VStr ''Positive'')]
      [example_evidence ''N1'' ''er_status'' (VStr ''Positive'') True]) ''er_status'' = VStr ''Positive''
   \<and> \<not> fst (evidence_support [example_evidence ''N1'' ''er_status'' (VStr ''Positive'') True]
         (VStr ''P1'') ''er_status'' (VStr ''Positive''))"
proof -
  let ?n = "example_note ''N1'' ''Pathology'' VNone ''er_status'' (VStr ''Positive'')"
  let ?ev = "[example_evidence ''N1'' ''er_status'' (VStr ''Positive'') True]"
  have h: "[?n] \<noteq> [] \<and> truthy (dict_get (hd [?n]) ''patient_id'') \<and> ''er_status'' \<in> set base_fields
   \<and> (\<forall>e\<in>set ?ev. VStr (ev_patient_id e) = dict_get (hd [?n]) ''patient_id'' \<and> ev_field e = ''er_status''
         \<longrightarrow> ev_is_negated e)"
    by (simp add: example_note_get base_fields_def example_evidence_def)
  have s: "\<not> fst (evidence_support ?ev (VStr ''P1'') ''er_status'' (VStr ''Positive''))" by code_simp
  from negation_gap[of "[?n]" "''er_status''" ?ev example_dtparse] h s
  show ?thesis by (simp add: rank_notes_single example_note_get is_empty_val_def)
qed

section \<open>Evidence support\<close>

text \<open>
  C6. \<open>evidence_support\<close> returns clean support exactly when some evidence entry of the
  patient and field (read through \<open>field\<close> or its alias \<open>entity\<close>) has the canonical form
  of the value and is neither negated nor uncertain, and any support exactly when some
  entry matches whatever its flags. The canonical form of an integral float is the
  decimal string of its integer, that of a string is the string trimmed; 35.0 and "35"
  have the same one.
\<close>

theorem evidence_support_iff:
  "(fst (evidence_support evidence_rows patient_id f v) \<longleftrightarrow>
      (\<exists>e\<in>set evidence_rows. VStr (ev_patient_id e) = patient_id \<and> (ev_field e = f \<or> ev_entity e = f)
         \<and> norm_val (ev_value e) = norm_val v \<and> \<not> ev_is_negated e \<and> \<not> ev_is_uncertain e))
   \<and> (snd (evidence_support evidence_rows patient_id f v) \<longleftrightarrow>
      (\<exists>e\<in>set evidence_rows. VStr (ev_patient_id e) = patient_id \<and> (ev_field e = f \<or> ev_entity e = f)
         \<and> norm_val (ev_value e) = norm_val v))
   \<and> norm_val (VFloat (PyFloat True n s)) = str_of_int n
   \<and> norm_val (VStr t) = strip t
   \<and> norm_val (VFloat (PyFloat True 35 ''35.0'')) = norm_val (VStr ''35'')"
proof -
  have "norm_val (VFloat (PyFloat True 35 ''35.0'')) = norm_val (VStr ''35'')" by code_simp
  then show ?thesis
    by (simp add: evidence_support_def evidence_loop_fst evidence_loop_snd ev_entity_def norm_val_def)
qed

theorem evidence_support_iff_witness:
  "evidence_support
     [example_evidence ''N1'' ''ki67_percent'' (VStr ''35'') True,
      example_evidence ''N2'' ''ki67_percent'' (VStr '' 35 '') False]
     (VStr ''P1'') ''ki67_percent'' (VFloat (PyFloat True 35 ''35.0'')) = (True, True)
   \<and> evidence_support
     [example_evidence ''N1'' ''ki67_percent'' (VStr ''35'') True]
     (VStr ''P1'') ''ki67_percent'' (VFloat (PyFloat True 35 ''35.0'')) = (False, True)
   \<and> evidence_support
     [example_evidence ''N1'' ''ki67_percent'' (VStr ''35'') True]
     (VStr ''P1'') ''ki67_percent'' (VStr ''36'') = (False, False)"
proof -
  have n: "norm_val (VStr '' 35 '') = ''35''" "norm_val (VStr ''35'') = ''35''" "norm_val (VStr ''36'') = ''36''"
    "norm_val (VFloat (PyFloat True 35 ''35.0'')) = ''35''" by code_simp+
  let ?e1 = "example_evidence ''N1'' ''ki67_percent'' (VStr ''35'') True"
  let ?e2 = "example_evidence ''N2'' ''ki67_percent'' (VStr '' 35 '') False"
  have "fst (evidence_support [?e1, ?e2] (VStr ''P1'') ''ki67_percent'' (VFloat (PyFloat True 35 ''35.0'')))"
    and "snd (evidence_support [?e1, ?e2] (VStr ''P1'') ''ki67_percent'' (VFloat (PyFloat True 35 ''35.0'')))"
    and "\<not> fst (evidence_support [?e1] (VStr ''P1'') ''ki67_percent'' (VFloat (PyFloat True 35 ''35.0'')))"
    and "snd (evidence_support [?e1] (VStr ''P1'') ''ki67_percent'' (VFloat (PyFloat True 35 ''35.0'')))"
    and "\<not> fst (evidence_support [?e1] (VStr ''P1'') ''ki67_percent'' (VStr ''36''))"
    and "\<not> snd (evidence_support [?e1] (VStr ''P1'') ''ki67_percent'' (VStr ''36''))"
    using evidence_support_iff[of "[?e1, ?e2]" "VStr ''P1''" "''ki67_percent''" "VFloat (PyFloat True 35 ''35.0'')", THEN conjunct1]
      evidence_support_iff[of "[?e1, ?e2]" "VStr ''P1''" "''ki67_percent''" "VFloat (PyFloat True 35 ''35.0'')", THEN conjunct2, THEN conjunct1]
      evidence_support_iff[of "[?e1]" "VStr ''P1''" "''ki67_percent''" "VFloat (PyFloat True 35 ''35.0'')", THEN conjunct1]
      evidence_support_iff[of "[?e1]" "VStr ''P1''" "''ki67_percent''" "VFloat (PyFloat True 35 ''35.0'')", THEN conjunct2, THEN conjunct1]
      evidence_support_iff[of "[?e1]" "VStr ''P1''" "''ki67_percent''" "VStr ''36''", THEN conjunct1]
      evidence_support_iff[of "[?e1]" "VStr ''P1''" "''ki67_percent''" "VStr ''36''", THEN conjunct2, THEN conjunct1]
    by (simp_all add: n example_evidence_def ev_entity_def)
  then show ?thesis by (simp add: prod_eq_iff)
qed

section \<open>Aggregation without notes or without a patient id\<close>

text \<open>
  C9. If the sequence of note records is empty, or the first record has no patient id
  (the key is missing, or its value is None or empty), aggregation returns the empty
  record. The model of aggregation is a total function: no input makes it raise.
\<close>

theorem aggregate_patient_empty:
  "aggregate_patient dtparse [] evidence_rows = Map.empty
   \<and> (\<not> truthy (dict_get r ''patient_id'') \<longrightarrow>
        aggregate_patient dtparse (r # rs) evidence_rows = Map.empty)"
  by (simp add: aggregate_patient_def)

theorem aggregate_patient_empty_witness:
  "\<not> truthy (dict_get [''note_id'' \<mapsto> VStr ''N1'', ''er_status'' \<mapsto> VStr ''Positive''] ''patient_id'')
   \<and> aggregate_patient example_dtparse
        [[''note_id'' \<mapsto> VStr ''N1'', ''er_status'' \<mapsto> VStr ''Positive''],
         example_note ''N2'' ''Pathology'' VNone ''er_status'' (VStr ''Negative'')]
        [example_evidence ''N1'' ''er_status'' (VStr ''Positive'') False] = Map.empty
   \<and> aggregate_patient example_dtparse [] [example_evidence ''N1'' ''er_status'' (VStr ''Positive'') False]
        = Map.empty"
proof -
  have h: "\<not> truthy (dict_get [''note_id'' \<mapsto> VStr ''N1'', ''er_status'' \<mapsto> VStr ''Positive''] ''patient_id'')"
    by (simp add: dict_get_def)
  show ?thesis
    using h aggregate_patient_empty[of example_dtparse
        "[example_evidence ''N1'' ''er_status'' (VStr ''Positive'') False]"
        "[''note_id'' \<mapsto> VStr ''N1'', ''er_status'' \<mapsto> VStr ''Positive'']"
        "[example_note ''N2'' ''Pathology'' VNone ''er_status'' (VStr ''Negative'')]"]
    by simp
qed

section \<open>Notes without a date that can be read\<close>

text \<open>
  C10. A note date that is absent or that the parser cannot read gives the date score 0;
  the parser's failure is a value, not an exception. Python's date ordinals start at 1,
  so among ranked notes of equal note-type precedence a note without a readable date
  stands after every note with one.
\<close>

theorem unparsable_date_ranks_last:
  "(\<forall>s n. dtparse s = Some n \<longrightarrow> 1 \<le> n) \<longrightarrow>
     (parse_date dtparse d = None \<longrightarrow> snd (note_score dtparse nt d) = 0)
     \<and> parse_date dtparse VNone = None
     \<and> (dtparse s = None \<longrightarrow> parse_date dtparse (VStr s) = None)
     \<and> (\<forall>i j. i < length note_rows \<and> j < length note_rows
          \<and> fst (note_key dtparse (rank_notes dtparse note_rows ! i))
              = fst (note_key dtparse (rank_notes dtparse note_rows ! j))
          \<and> parse_date dtparse (dict_get (rank_notes dtparse note_rows ! i) ''note_date'') = None
          \<and> parse_date dtparse (dict_get (rank_notes dtparse note_rows ! j) ''note_date'') \<noteq> None
          \<longrightarrow> j < i)"
proof (intro impI conjI allI)
  show "snd (note_score dtparse nt d) = 0" if "parse_date dtparse d = None"
    using that by (rule note_score_snd_none)
  show "parse_date dtparse VNone = None" by (simp add: parse_date_def)
  show "parse_date dtparse (VStr s) = None" if "dtparse s = None"
    using that by (simp add: parse_date_def)
next
  fix i j
  let ?ys = "rank_notes dtparse note_rows"
  assume ord: "\<forall>s n. dtparse s = Some n \<longrightarrow> 1 \<le> n"
    and h: "i < length note_rows \<and> j < length note_rows
          \<and> fst (note_key dtparse (?ys ! i)) = fst (note_key dtparse (?ys ! j))
          \<and> parse_date dtparse (dict_get (?ys ! i) ''note_date'') = None
          \<and> parse_date dtparse (dict_get (?ys ! j) ''note_date'') \<noteq> None"
  have "snd (note_key dtparse (?ys ! i)) = 0" using h by (simp add: note_key_def note_score_snd_none)
  moreover have "0 < snd (note_key dtparse (?ys ! j))"
    using note_score_snd_pos[OF ord] h by (simp add: note_key_def)
  ultimately have "note_key dtparse (?ys ! i) < note_key dtparse (?ys ! j)"
    using h by (simp add: less_prod_def)
  then show "j < i"
    unfolding rank_notes_def using h by (intro sorted_reverse_before[of i note_rows j]) simp_all
qed

lemma example_dtparse_ordinals: "\<forall>s n. example_dtparse s = Some n \<longrightarrow> 1 \<le> n"
  by (simp add: example_dtparse_def)

theorem unparsable_date_ranks_last_witness:
  "rank_notes example_dtparse
     [example_note ''A'' ''Pathology'' (VStr ''next week'') ''er_status'' (VStr ''Positive''),
      example_note ''B'' ''Pathology'' (VStr ''2023-01-01'') ''er_status'' (VStr ''Negative'')]
   = [example_note ''B'' ''Pathology'' (VStr ''2023-01-01'') ''er_status'' (VStr ''Negative''),
      example_note ''A'' ''Pathology'' (VStr ''next week'') ''er_status'' (VStr ''Positive'')]
   \<and> parse_date example_dtparse (VStr ''next week'') = None
   \<and> parse_date example_dtparse (VStr ''2023-01-01'') = Some 738521
   \<and> snd (note_score example_dtparse (VStr ''Pathology'') (VStr ''next week'')) = 0
   \<and> (0::nat) < 1"
proof -
  let ?A = "example_note ''A'' ''Pathology'' (VStr ''next week'') ''er_status'' (VStr ''Positive'')"
  let ?B = "example_note ''B'' ''Pathology'' (VStr ''2023-01-01'') ''er_status'' (VStr ''Negative'')"
  have p: "parse_date example_dtparse (VStr ''next week'') = None"
    "parse_date example_dtparse (VStr ''2023-01-01'') = Some 738521"
    by (simp_all add: parse_date_def example_dtparse_def)
  have k: "note_key example_dtparse ?A = (100, 0)" "note_key example_dtparse ?B = (100, 738521)"
    by (simp_all add: note_key_def note_score_def example_note_get p NOTE_TYPE_PRECEDENCE_def)
  have r: "rank_notes example_dtparse [?A, ?B] = [?B, ?A]"
    by (simp add: rank_notes_def sorted_reverse_def k)
  from unparsable_date_ranks_last[of example_dtparse "VStr ''next week''" "VStr ''Pathology''" "''next week''" "[?A, ?B]"]
    example_dtparse_ordinals
  have "snd (note_score example_dtparse (VStr ''Pathology'') (VStr ''next week'')) = 0"
    and "\<forall>i j. i < length [?A, ?B] \<and> j < length [?A, ?B]
          \<and> fst (note_key example_dtparse (rank_notes example_dtparse [?A, ?B] ! i))
              = fst (note_key example_dtparse (rank_notes example_dtparse [?A, ?B] ! j))
          \<and> parse_date example_dtparse (dict_get (rank_notes example_dtparse [?A, ?B] ! i) ''note_date'') = None
          \<and> parse_date example_dtparse (dict_get (rank_notes example_dtparse [?A, ?B] ! j) ''note_date'') \<noteq> None
          \<longrightarrow> j < i"
    using p by blast+
  from this(1) this(2)[rule_format, of 1 0] r p k show ?thesis
    by (simp add: example_note_get)
qed

section \<open>The percent pattern\<close>

text \<open>
  The search for \<^verbatim>\<open>(\d{1,3})\s*%?\<close> succeeds at the first digit of the text, and group 1
  is made of the first digits there, three at most.
\<close>

lemma rx_alts_Nil [simp]: "rx_alts [] sts = sts"
  by (induction sts) simp_all

lemma rep_counts_zero: "rep_counts cls 0 None s = length (takeWhile cls s) # rev [0..<length (takeWhile cls s)]"
  by (simp add: rep_counts_def Let_def)

lemma percent_tail:
  "\<exists>p' s' rest. rx_seq [Rep isspace 0 None, Opt [Chr pc]] p s cs = (p', s', cs) # rest"
proof -
  define n where "n = length (takeWhile isspace s)"
  obtain p1 s1 where a: "advance p s cs n = (p1, s1, cs)" by (simp add: advance_def)
  define A where "A = rx_match (Chr pc) p1 s1 cs"
  have A: "A = [] \<or> (\<exists>c r. A = [(Some c, r, cs)])" unfolding A_def by (cases s1) simp_all
  have "rx_seq [Rep isspace 0 None, Opt [Chr pc]] p s cs =
      A @ (p1, s1, cs) # rx_alts [Opt [Chr pc]] (map (advance p s cs) (rev [0..<n]))"
    by (simp add: rep_counts_zero n_def[symmetric] a A_def)
  with A show ?thesis by auto
qed

lemma percent_at:
  "rx_seq percent_rx prev s [] =
     (if s \<noteq> [] \<and> isdigit (hd s)
      then rx_alts [Rep isspace 0 None, Opt [Chr (\<lambda>c. c = CHR ''%'')]]
             (map (\<lambda>k. (Some (s ! (k - 1)), drop k s, [(1, take k s)]))
                (rev [1..<Suc (min (length (takeWhile isdigit s)) 3)]))
      else [])"
proof (cases "s \<noteq> [] \<and> isdigit (hd s)")
  case True
  let ?ks = "rev [1..<Suc (min (length (takeWhile isdigit s)) 3)]"
  have "\<forall>k\<in>set ?ks. (\<lambda>(p, s', cs'). (p, s', (1, take (length s - length s') s) # cs')) (advance prev s [] k)
       = (Some (s ! (k - 1)), drop k s, [(1, take k s)])"
  proof
    fix k assume "k \<in> set ?ks"
    then have "1 \<le> k" "k \<le> length (takeWhile isdigit s)" by auto
    moreover have "length (takeWhile isdigit s) \<le> length s" by (rule length_takeWhile_le)
    ultimately show "(\<lambda>(p, s', cs'). (p, s', (1, take (length s - length s') s) # cs')) (advance prev s [] k)
       = (Some (s ! (k - 1)), drop k s, [(1, take k s)])" by (simp add: advance_def)
  qed
  then have k: "map (\<lambda>(p, s', cs'). (p, s', (1, take (length s - length s') s) # cs'))
         (map (advance prev s []) ?ks)
       = map (\<lambda>k. (Some (s ! (k - 1)), drop k s, [(1, take k s)])) ?ks"
    by (simp only: map_map map_eq_conv o_def)
  have "rx_seq percent_rx prev s [] =
     rx_alts [Rep isspace 0 None, Opt [Chr (\<lambda>c. c = CHR ''%'')]]
       (map (\<lambda>(p, s', cs'). (p, s', (1, take (length s - length s') s) # cs'))
         (map (advance prev s []) ?ks))"
    by (simp add: percent_rx_def rep_counts_def Let_def)
  then show ?thesis using True unfolding k by simp
next
  case False
  then have "length (takeWhile isdigit s) = 0" by (cases s) auto
  then show ?thesis using False by (simp add: percent_rx_def rep_counts_def)
qed

lemma percent_at_head:
  assumes "s \<noteq> []" "isdigit (hd s)"
  shows "\<exists>p' s' rest. rx_seq percent_rx prev s [] = (p', s', [(1, take 3 (takeWhile isdigit s))]) # rest"
proof -
  define m where "m = min (length (takeWhile isdigit s)) 3"
  from assms have "0 < length (takeWhile isdigit s)" by (cases s) auto
  then have m: "0 < m" by (simp add: m_def)
  then have r: "rev [1..<Suc m] = m # rev [1..<m]" by (cases m) simp_all
  have t: "take m s = take 3 (takeWhile isdigit s)"
  proof -
    have "take 3 (takeWhile isdigit s) = take 3 (take (length (takeWhile isdigit s)) s)"
      by (simp add: takeWhile_eq_take[symmetric])
    then show ?thesis by (simp add: m_def min.commute)
  qed
  from percent_tail[of "\<lambda>c. c = CHR ''%''" "Some (s ! (m - 1))" "drop m s" "[(1, take m s)]"]
  obtain p' s' rest where
    "rx_seq [Rep isspace 0 None, Opt [Chr (\<lambda>c. c = CHR ''%'')]] (Some (s ! (m - 1))) (drop m s) [(1, take m s)]
      = (p', s', [(1, take m s)]) # rest" by blast
  then show ?thesis using assms m
    by (simp add: percent_at m_def[symmetric] r t)
qed

lemma percent_search:
  "rx_search percent_rx prev s =
     (case dropWhile (\<lambda>c. \<not> isdigit c) s of
        [] \<Rightarrow> None
      | ds \<Rightarrow> Some [(1, take 3 (takeWhile isdigit ds))])"
proof (induction s arbitrary: prev)
  case Nil
  show ?case by (simp add: percent_at)
next
  case (Cons c s)
  show ?case
  proof (cases "isdigit c")
    case True
    from percent_at_head[of "c # s" prev] True obtain p' s' rest where
      "rx_seq percent_rx prev (c # s) [] = (p', s', [(1, take 3 (takeWhile isdigit (c # s)))]) # rest"
      by auto
    then show ?thesis using True by simp
  next
    case False
    then have "rx_seq percent_rx prev (c # s) [] = []" by (simp add: percent_at)
    then show ?thesis using False Cons.IH by simp
  qed
qed

lemma int_of_digits_snoc: "int_of_digits (ds @ [c]) = 10 * int_of_digits ds + digit_val c"
  by (simp add: int_of_digits_def)

lemma digit_val_nonneg: "isdigit c \<Longrightarrow> 0 \<le> digit_val c"
  by (simp add: isdigit_def digit_val_def Let_def)

lemma int_of_digits_nonneg: "\<forall>c\<in>set ds. isdigit c \<Longrightarrow> 0 \<le> int_of_digits ds"
  by (induction ds rule: rev_induct) (simp_all add: int_of_digits_snoc digit_val_nonneg int_of_digits_def)

lemma digit_char_props:
  assumes "d < 10"
  shows "isdigit (digit_char d)" and "digit_val (digit_char d) = int d"
  using assms by (simp_all add: isdigit_def digit_val_def digit_char_def Let_def)

lemma str_of_nat_digits: "\<forall>c\<in>set (str_of_nat n). isdigit c"
  by (induction n rule: str_of_nat.induct) (subst str_of_nat.simps, simp add: digit_char_props)

lemma str_of_nat_nonempty: "str_of_nat n \<noteq> []"
  by (subst str_of_nat.simps) simp

lemma int_of_str_of_nat: "int_of_digits (str_of_nat n) = int n"
proof (induction n rule: str_of_nat.induct)
  case (1 n)
  show ?case
  proof (cases "n < 10")
    case True
    then show ?thesis
      by (subst str_of_nat.simps) (simp add: int_of_digits_def digit_char_props)
  next
    case False
    with 1 have "int_of_digits (str_of_nat (n div 10)) = int (n div 10)" by simp
    with False show ?thesis
      by (subst str_of_nat.simps) (simp add: int_of_digits_snoc digit_char_props zdiv_int zmod_int)
  qed
qed

lemma length_str_of_nat: "n < 1000 \<Longrightarrow> length (str_of_nat n) \<le> 3"
proof -
  assume n: "n < 1000"
  have a: "length (str_of_nat k) = 1" if "k < 10" for k
    using that by (subst str_of_nat.simps) simp
  have b: "length (str_of_nat k) = 2" if "10 \<le> k" "k < 100" for k
    using that a[of "k div 10"] by (subst str_of_nat.simps) simp
  have c: "length (str_of_nat k) = 3" if "100 \<le> k" "k < 1000" for k
    using that b[of "k div 10"] by (subst str_of_nat.simps) simp
  from n a[of n] b[of n] c[of n] show ?thesis by linarith
qed

lemma normalize_percent_first_digits:
  "normalize_percent (VStr s) =
     (let ds = dropWhile (\<lambda>c. \<not> isdigit c) s;
          v = int_of_digits (take 3 (takeWhile isdigit ds))
      in if ds = [] then VNone else if v \<le> 100 then VInt v else VNone)"
proof (cases "dropWhile (\<lambda>c. \<not> isdigit c) s")
  case Nil
  have "rx_search percent_rx None s = None" unfolding percent_search Nil by simp
  with Nil show ?thesis
    by (simp add: normalize_percent_def re_search_def)
next
  case (Cons d ds)
  then have s: "s \<noteq> []" by auto
  define w where "w = take 3 (takeWhile isdigit (dropWhile (\<lambda>c. \<not> isdigit c) s))"
  have rs: "rx_search percent_rx None s = Some [(1, w)]"
    unfolding percent_search w_def Cons by simp
  have "\<forall>c\<in>set w. isdigit c" unfolding w_def
    by (meson in_set_takeD set_takeWhileD)
  then have nn: "0 \<le> int_of_digits w" by (rule int_of_digits_nonneg)
  have "normalize_percent (VStr s) = (if int_of_digits w \<le> 100 then VInt (int_of_digits w) else VNone)"
    using s nn by (simp add: normalize_percent_def re_search_def rs group_def Let_def)
  then show ?thesis
    unfolding Let_def w_def[symmetric] by (simp add: Cons)
qed

lemma normalize_percent_decimal:
  assumes v: "v < 1000" and t: "t = [] \<or> \<not> isdigit (hd t)"
  shows "normalize_percent (VStr (str_of_nat v @ t)) = (if v \<le> 100 then VInt (int v) else VNone)"
proof -
  let ?d = "str_of_nat v"
  obtain c cs where d: "?d = c # cs" using str_of_nat_nonempty[of v] by (cases ?d) auto
  have dg: "\<forall>x\<in>set ?d. isdigit x" by (rule str_of_nat_digits)
  then have c: "isdigit c" using d by simp
  have tw: "takeWhile isdigit (?d @ t) = ?d"
  proof (cases t)
    case Nil then show ?thesis using dg by (simp add: takeWhile_eq_all_conv)
  next
    case (Cons a as)
    with t have "\<not> isdigit a" by simp
    with dg Cons show ?thesis by (simp add: takeWhile_append2)
  qed
  have dw: "dropWhile (\<lambda>c. \<not> isdigit c) (?d @ t) = ?d @ t" using c d by simp
  have tk: "take 3 ?d = ?d" using length_str_of_nat[OF v] by simp
  show ?thesis
    unfolding normalize_percent_first_digits Let_def dw tw tk int_of_str_of_nat
    by (simp add: str_of_nat_nonempty)
qed

lemma normalize_percent_decimal_in_text:
  assumes v: "v < 1000" and t: "t = [] \<or> \<not> isdigit (hd t)" and p: "\<forall>c\<in>set pre. \<not> isdigit c"
  shows "normalize_percent (VStr (pre @ str_of_nat v @ t)) = (if v \<le> 100 then VInt (int v) else VNone)"
proof -
  have dw: "dropWhile (\<lambda>c. \<not> isdigit c) (pre @ str_of_nat v @ t)
      = dropWhile (\<lambda>c. \<not> isdigit c) (str_of_nat v @ t)"
    using p by (simp add: dropWhile_append2)
  have "normalize_percent (VStr (pre @ str_of_nat v @ t)) = normalize_percent (VStr (str_of_nat v @ t))"
    unfolding normalize_percent_first_digits dw ..
  then show ?thesis by (simp add: normalize_percent_decimal[OF v t])
qed

text \<open>
  C7 says that every integer rendered in the text is accepted exactly when it is between
  0 and 100. The pattern reads three digits at most and no sign: of "1000%" it reads 100
  and of "-5%" it reads 5, and both are returned.
\<close>

theorem normalize_percent_truncates:
  "normalize_percent (VStr ''1000%'') = VInt 100 \<and> normalize_percent (VStr ''-5%'') = VInt 5"
proof -
  have "normalize_percent (VStr ''1000%'') = VInt 100" by code_simp
  moreover have "normalize_percent (VStr ''-5%'') = VInt 5" by code_simp
  ultimately show ?thesis by simp
qed

text \<open>
  C7, as amended. \<open>normalize_percent\<close> reads the first digits of the first run of digits
  in the text, three at most, whether or not a percent sign follows, and returns their
  number exactly when it is at most 100. So for every integer from 0 to 999, written in
  decimal after text without digits and followed by nothing or by a character that is not
  a digit, the integer is returned exactly when it is at most 100; "150%" gives none and
  "7%" gives 7.
\<close>

theorem normalize_percent_range:
  "normalize_percent (VStr s) =
     (let ds = dropWhile (\<lambda>c. \<not> isdigit c) s;
          n = int_of_digits (take 3 (takeWhile isdigit ds))
      in if ds = [] then VNone else if n \<le> 100 then VInt n else VNone)
   \<and> (v < 1000 \<and> (t = [] \<or> \<not> isdigit (hd t)) \<and> (\<forall>c\<in>set pre. \<not> isdigit c) \<longrightarrow>
        normalize_percent (VStr (pre @ str_of_nat v @ t)) = (if v \<le> 100 then VInt (int v) else VNone))
   \<and> normalize_percent (VStr ''150%'') = VNone
   \<and> normalize_percent (VStr ''7%'') = VInt 7"
proof (intro conjI impI)
  show "normalize_percent (VStr s) =
     (let ds = dropWhile (\<lambda>c. \<not> isdigit c) s;
          n = int_of_digits (take 3 (takeWhile isdigit ds))
      in if ds = [] then VNone else if n \<le> 100 then VInt n else VNone)"
    by (rule normalize_percent_first_digits)
  show "normalize_percent (VStr (pre @ str_of_nat v @ t)) = (if v \<le> 100 then VInt (int v) else VNone)"
    if "v < 1000 \<and> (t = [] \<or> \<not> isdigit (hd t)) \<and> (\<forall>c\<in>set pre. \<not> isdigit c)"
    using that by (intro normalize_percent_decimal_in_text) simp_all
  show "normalize_percent (VStr ''150%'') = VNone" by code_simp
  show "normalize_percent (VStr ''7%'') = VInt 7" by code_simp
qed

theorem normalize_percent_range_witness:
  "normalize_percent (VStr ''Ki: 35 %'') = VInt 35 \<and> normalize_percent (VStr ''Ki: 101 %'') = VNone
   \<and> normalize_percent (VStr ''100'') = VInt 100"
proof -
  have s: "str_of_nat 35 = ''35''" "str_of_nat 101 = ''101''" "str_of_nat 100 = ''100''" by code_simp+
  have h1: "(35::nat) < 1000 \<and> ('' %'' = [] \<or> \<not> isdigit (hd '' %'')) \<and> (\<forall>c\<in>set ''Ki: ''. \<not> isdigit c)"
    by code_simp
  have h2: "(101::nat) < 1000 \<and> ('' %'' = [] \<or> \<not> isdigit (hd '' %'')) \<and> (\<forall>c\<in>set ''Ki: ''. \<not> isdigit c)"
    by code_simp
  have h3: "(100::nat) < 1000 \<and> ([] = [] \<or> \<not> isdigit (hd [])) \<and> (\<forall>c\<in>set []. \<not> isdigit c)"
    by simp
  note a = normalize_percent_range[THEN conjunct2, THEN conjunct1, THEN mp]
  from a[OF h1] a[OF h2] a[OF h3] show ?thesis by (simp add: s)
qed

section \<open>The stage pattern\<close>

text \<open>
  C8. The comment in \<open>normalize_stage\<close> says it accepts stage i, ii, iii and iv with an
  optional letter; the pattern takes any run of the letters i, v and x. The function
  returns "V" for "stage v", "X" for "Stage X" and "IIII" for "stage iiii", where the
  claim says none.
\<close>

theorem normalize_stage_accepts_other_romans:
  "normalize_stage (VStr ''stage v'') = VStr ''V''
   \<and> normalize_stage (VStr ''Stage X'') = VStr ''X''
   \<and> normalize_stage (VStr ''stage iiii'') = VStr ''IIII''
   \<and> normalize_stage (VStr ''Stage IIIA'') = VStr ''IIIA''
   \<and> normalize_stage (VStr ''grade 2'') = VNone"
proof -
  have "normalize_stage (VStr ''stage v'') = VStr ''V''" by code_simp
  moreover have "normalize_stage (VStr ''Stage X'') = VStr ''X''" by code_simp
  moreover have "normalize_stage (VStr ''stage iiii'') = VStr ''IIII''" by code_simp
  moreover have "normalize_stage (VStr ''Stage IIIA'') = VStr ''IIIA''" by code_simp
  moreover have "normalize_stage (VStr ''grade 2'') = VNone" by code_simp
  ultimately show ?thesis by simp
qed

section \<open>The loop over the mentions of a note\<close>

lemma phenos_add_ev [simp]: "phenos (add_ev c field v ent lbl conf st) = phenos st"
  by (simp add: add_ev_def Let_def)

lemma phenos_set_pheno [simp]: "phenos (set_pheno k v st) = (phenos st)(k \<mapsto> v)"
  by (simp add: set_pheno_def)

lemma normalize_status_literals:
  "normalize_status (VStr ''Positive'') = VStr ''Positive''"
  "normalize_status (VStr ''Negative'') = VStr ''Negative''"
  by code_simp+

lemma phenos_receptor_step:
  "phenos (receptor_step c sk status pk find_pct ent st) =
     (if find_pct (m_sent_text ent) \<noteq> VNone
      then (phenos st)(sk \<mapsto> normalize_status (VStr status), pk \<mapsto> find_pct (m_sent_text ent))
      else (phenos st)(sk \<mapsto> normalize_status (VStr status)))"
  by (simp add: receptor_step_def Let_def)

lemma phenos_ent_step:
  "phenos (ent_step c ent st) =
     (let lbl = m_label ent; ph = phenos st in
      if lbl = ''ER_POS'' then phenos (receptor_step c ''er_status'' ''Positive'' ''er_percent'' find_er_percent ent st)
      else if lbl = ''ER_NEG'' then phenos (receptor_step c ''er_status'' ''Negative'' ''er_percent'' find_er_percent ent st)
      else if lbl = ''PR_POS'' then phenos (receptor_step c ''pr_status'' ''Positive'' ''pr_percent'' find_pr_percent ent st)
      else if lbl = ''PR_NEG'' then phenos (receptor_step c ''pr_status'' ''Negative'' ''pr_percent'' find_pr_percent ent st)
      else if lbl \<in> {''HER2_IHC'', ''HER2_POS'', ''HER2_NEG'', ''HER2_FISH_POS'', ''HER2_FISH_NEG''} then ph
      else if lbl = ''KI67'' then
        (if normalize_percent (VStr (m_text ent)) \<noteq> VNone
         then ph(''ki67_percent'' \<mapsto> normalize_percent (VStr (m_text ent))) else ph)
      else if startswith lbl ''HISTOLOGY_'' then
        (let hist = normalize_histology (VStr (if lbl \<noteq> ''HISTOLOGY_TEXT'' then m_text ent else m_sent_text ent))
         in if truthy hist then ph(''histology'' \<mapsto> hist) else ph)
      else if lbl = ''GRADE'' then
        (if truthy (normalize_grade (VStr (m_sent_text ent)))
         then ph(''grade'' \<mapsto> normalize_grade (VStr (m_sent_text ent))) else ph)
      else if lbl \<in> {''STAGE_PATH'', ''STAGE_CLIN'', ''STAGE_GENERIC''} then
        (let s = normalize_stage (VStr (if lbl \<noteq> ''STAGE_GENERIC'' then m_text ent else m_sent_text ent))
         in if truthy s then
              (if lbl = ''STAGE_PATH'' then ph(''stage_path'' \<mapsto> s)
               else if lbl = ''STAGE_CLIN'' then ph(''stage_clinical'' \<mapsto> s)
               else if \<not> truthy (dict_get ph ''stage_path'') then ph(''stage_path'' \<mapsto> s)
               else if \<not> truthy (dict_get ph ''stage_clinical'') then ph(''stage_clinical'' \<mapsto> s)
               else ph)
            else ph)
      else ph)"
  unfolding ent_step_def Let_def by simp

lemma step_er_status:
  "phenos (ent_step c m st) ''er_status'' =
     (if m_label m = ''ER_POS'' then Some (VStr ''Positive'')
      else if m_label m = ''ER_NEG'' then Some (VStr ''Negative'')
      else phenos st ''er_status'')"
  unfolding phenos_ent_step Let_def phenos_receptor_step
  by (simp add: normalize_status_literals)

lemma step_pr_status:
  "phenos (ent_step c m st) ''pr_status'' =
     (if m_label m = ''PR_POS'' then Some (VStr ''Positive'')
      else if m_label m = ''PR_NEG'' then Some (VStr ''Negative'')
      else phenos st ''pr_status'')"
  unfolding phenos_ent_step Let_def phenos_receptor_step
  by (simp add: normalize_status_literals)

lemma step_ki67_percent:
  "phenos (ent_step c m st) ''ki67_percent'' =
     (if m_label m = ''KI67'' \<and> normalize_percent (VStr (m_text m)) \<noteq> VNone
      then Some (normalize_percent (VStr (m_text m)))
      else phenos st ''ki67_percent'')"
  unfolding phenos_ent_step Let_def phenos_receptor_step
  by simp

lemma step_grade:
  "phenos (ent_step c m st) ''grade'' =
     (if m_label m = ''GRADE'' \<and> truthy (normalize_grade (VStr (m_sent_text m)))
      then Some (normalize_grade (VStr (m_sent_text m)))
      else phenos st ''grade'')"
  unfolding phenos_ent_step Let_def phenos_receptor_step
  by simp

lemma step_histology:
  "phenos (ent_step c m st) ''histology'' =
     (if startswith (m_label m) ''HISTOLOGY_'' \<and>
         truthy (normalize_histology (VStr (if m_label m \<noteq> ''HISTOLOGY_TEXT'' then m_text m else m_sent_text m)))
      then Some (normalize_histology (VStr (if m_label m \<noteq> ''HISTOLOGY_TEXT'' then m_text m else m_sent_text m)))
      else phenos st ''histology'')"
  unfolding phenos_ent_step Let_def phenos_receptor_step
  by auto

lemma step_stage_generic_full:
  "m_label m = ''STAGE_GENERIC'' \<Longrightarrow> truthy (dict_get (phenos st) ''stage_path'') \<Longrightarrow>
   truthy (dict_get (phenos st) ''stage_clinical'') \<Longrightarrow> phenos (ent_step c m st) = phenos st"
  unfolding phenos_ent_step Let_def by simp

lemma fold_last_writer:
  assumes step: "\<And>m st. g (h m st) = (case w m of Some v \<Rightarrow> v | None \<Rightarrow> g st)"
    and m: "w m = Some v" and after: "\<forall>m'\<in>set after. w m' = None"
  shows "g (fold h (before @ m # after) st) = v"
proof -
  have keep: "g (fold h ms s) = g s" if "\<forall>m'\<in>set ms. w m' = None" for ms s
    using that by (induction ms arbitrary: s) (simp_all add: step)
  have "g (fold h (before @ m # after) st) = g (h m (fold h before st))"
    by (simp add: keep[OF after])
  also have "\<dots> = v" by (simp add: step m)
  finally show ?thesis .
qed

lemma status_fallback_other: "k \<noteq> key \<Longrightarrow> status_fallback key p n t ph k = ph k"
  by (simp add: status_fallback_def)

lemma status_fallback_set: "ph key = Some v \<Longrightarrow> v \<noteq> VNone \<Longrightarrow> status_fallback key p n t ph key = Some v"
  by (simp add: status_fallback_def dict_get_def)

lemma percent_fallback_other: "k \<noteq> key \<Longrightarrow> percent_fallback key f t ph k = ph k"
  by (simp add: percent_fallback_def Let_def)

lemma extract_note_loop_field:
  assumes k: "k \<in> {''er_status'', ''pr_status'', ''ki67_percent'', ''histology'', ''grade''}"
    and v: "phenos (ents_loop c ents (initial_state c)) k = Some v" "v \<noteq> VNone"
    and c: "c = \<lparr>c_text = clean_text note_text, c_patient_id = patient_id, c_note_id = note_id,
               c_note_date = note_date, c_note_type = note_type\<rparr>"
  shows "dict_get (fst (extract_note note_text patient_id note_id note_date note_type ents)) k = v"
proof -
  let ?st = "ents_loop c ents (initial_state c)"
  let ?t = "clean_text note_text"
  let ?ph1 = "status_fallback ''er_status'' ER_POS_FALLBACK ER_NEG_FALLBACK ?t (phenos ?st)"
  let ?ph2 = "status_fallback ''pr_status'' PR_POS_FALLBACK PR_NEG_FALLBACK ?t ?ph1"
  have 1: "?ph1 k = Some v"
    using v by (cases "k = ''er_status''") (simp_all add: status_fallback_set status_fallback_other)
  have 2: "?ph2 k = Some v"
    using 1 v(2) by (cases "k = ''pr_status''") (simp_all add: status_fallback_set status_fallback_other)
  have n: "k \<noteq> ''er_percent''" "k \<noteq> ''pr_percent''" "k \<noteq> ''her2_status''" "k \<noteq> ''her2_ihc_score''"
    "k \<noteq> ''her2_fish''" using k by auto
  show ?thesis
    unfolding extract_note_def Let_def c[symmetric] dict_get_def
    using 2 n by (simp add: percent_fallback_other)
qed

lemma loop_last_writer:
  assumes step: "\<And>m st. phenos (ent_step c m st) k = (case w m of Some v \<Rightarrow> Some v | None \<Rightarrow> phenos st k)"
    and m: "w m = Some v" and after: "\<forall>m'\<in>set after. w m' = None"
  shows "phenos (ents_loop c (before @ m # after) st) k = Some v"
proof -
  have s: "\<And>m st. phenos (ent_step c m st) k =
      (case map_option Some (w m) of Some x \<Rightarrow> x | None \<Rightarrow> phenos st k)"
    by (simp add: step split: option.splits)
  show ?thesis
    unfolding ents_loop_def
    by (rule fold_last_writer[where g = "\<lambda>st. phenos st k" and w = "\<lambda>m. map_option Some (w m)", OF s])
       (simp_all add: m after)
qed

lemma example_mention_sel [simp]:
  "m_label (example_mention lbl span) = lbl" "m_text (example_mention lbl span) = span"
  "m_sent_text (example_mention lbl span) = span"
  by (simp_all add: example_mention_def)

text \<open>
  C5 says the first mention that normalizes for a field decides the field. The loop
  assigns the field at every such mention, so a later one overwrites it: after an ER
  positive and then an ER negative mention the status is Negative, and of two Ki-67
  values the second is kept.
\<close>

theorem first_mention_overwritten:
  "dict_get (fst (extract_note ''ER+ ER-'' ''P1'' ''N1'' VNone (VStr ''Pathology'')
      [example_mention ''ER_POS'' ''ER+'', example_mention ''ER_NEG'' ''ER-''])) ''er_status''
     = VStr ''Negative''
   \<and> dict_get (fst (extract_note ''Ki-67 10%. Ki-67 35%.'' ''P1'' ''N1'' VNone (VStr ''Pathology'')
      [example_mention ''KI67'' ''10%'', example_mention ''KI67'' ''35%''])) ''ki67_percent''
     = VInt 35"
proof
  define c1 where "c1 = \<lparr>c_text = clean_text ''ER+ ER-'', c_patient_id = ''P1'', c_note_id = ''N1'',
               c_note_date = VNone, c_note_type = VStr ''Pathology''\<rparr>"
  have "phenos (ents_loop c1 ([example_mention ''ER_POS'' ''ER+''] @ example_mention ''ER_NEG'' ''ER-'' # [])
          (initial_state c1)) ''er_status'' = Some (VStr ''Negative'')"
    by (rule loop_last_writer[where w = "\<lambda>m. if m_label m = ''ER_POS'' then Some (VStr ''Positive'')
            else if m_label m = ''ER_NEG'' then Some (VStr ''Negative'') else None"])
       (simp_all add: step_er_status)
  then show "dict_get (fst (extract_note ''ER+ ER-'' ''P1'' ''N1'' VNone (VStr ''Pathology'')
      [example_mention ''ER_POS'' ''ER+'', example_mention ''ER_NEG'' ''ER-''])) ''er_status''
     = VStr ''Negative''"
    by (intro extract_note_loop_field[where c = c1, OF _ _ _ c1_def]) simp_all
next
  define c2 where "c2 = \<lparr>c_text = clean_text ''Ki-67 10%. Ki-67 35%.'', c_patient_id = ''P1'', c_note_id = ''N1'',
               c_note_date = VNone, c_note_type = VStr ''Pathology''\<rparr>"
  have p: "normalize_percent (VStr ''35%'') = VInt 35" by code_simp
  have "phenos (ents_loop c2 ([example_mention ''KI67'' ''10%''] @ example_mention ''KI67'' ''35%'' # [])
          (initial_state c2)) ''ki67_percent'' = Some (VInt 35)"
    by (rule loop_last_writer[where w = "\<lambda>m. if m_label m = ''KI67'' \<and> normalize_percent (VStr (m_text m)) \<noteq> VNone
            then Some (normalize_percent (VStr (m_text m))) else None"])
       (simp_all add: step_ki67_percent p)
  then show "dict_get (fst (extract_note ''Ki-67 10%. Ki-67 35%.'' ''P1'' ''N1'' VNone (VStr ''Pathology'')
      [example_mention ''KI67'' ''10%'', example_mention ''KI67'' ''35%''])) ''ki67_percent''
     = VInt 35"
    by (intro extract_note_loop_field[where c = c2, OF _ _ _ c2_def]) simp_all
qed

text \<open>
  C5, as amended. Within one note the last mention that normalizes for a field decides
  its value, for the ER status, the PR status, the Ki-67 percent, the grade and the
  histology: a mention that writes the field, followed only by mentions that do not,
  gives the field its value whatever came before. Only a generic stage mention never
  overwrites: with both stage fields set it leaves the record as it is.
\<close>

theorem last_mention_wins:
  "(m_label m \<in> {''ER_POS'', ''ER_NEG''} \<and> (\<forall>m'\<in>set after. m_label m' \<notin> {''ER_POS'', ''ER_NEG''}) \<longrightarrow>
      dict_get (fst (extract_note note_text patient_id note_id note_date note_type (before @ m # after))) ''er_status''
        = VStr (if m_label m = ''ER_POS'' then ''Positive'' else ''Negative''))
   \<and> (m_label m \<in> {''PR_POS'', ''PR_NEG''} \<and> (\<forall>m'\<in>set after. m_label m' \<notin> {''PR_POS'', ''PR_NEG''}) \<longrightarrow>
      dict_get (fst (extract_note note_text patient_id note_id note_date note_type (before @ m # after))) ''pr_status''
        = VStr (if m_label m = ''PR_POS'' then ''Positive'' else ''Negative''))
   \<and> (m_label m = ''KI67'' \<and> normalize_percent (VStr (m_text m)) \<noteq> VNone
      \<and> (\<forall>m'\<in>set after. m_label m' = ''KI67'' \<longrightarrow> normalize_percent (VStr (m_text m')) = VNone) \<longrightarrow>
      dict_get (fst (extract_note note_text patient_id note_id note_date note_type (before @ m # after))) ''ki67_percent''
        = normalize_percent (VStr (m_text m)))
   \<and> (m_label m = ''GRADE'' \<and> truthy (normalize_grade (VStr (m_sent_text m)))
      \<and> (\<forall>m'\<in>set after. m_label m' = ''GRADE'' \<longrightarrow> \<not> truthy (normalize_grade (VStr (m_sent_text m')))) \<longrightarrow>
      dict_get (fst (extract_note note_text patient_id note_id note_date note_type (before @ m # after))) ''grade''
        = normalize_grade (VStr (m_sent_text m)))
   \<and> (startswith (m_label m) ''HISTOLOGY_''
      \<and> truthy (normalize_histology (VStr (if m_label m \<noteq> ''HISTOLOGY_TEXT'' then m_text m else m_sent_text m)))
      \<and> (\<forall>m'\<in>set after. startswith (m_label m') ''HISTOLOGY_'' \<longrightarrow>
            \<not> truthy (normalize_histology (VStr (if m_label m' \<noteq> ''HISTOLOGY_TEXT'' then m_text m' else m_sent_text m')))) \<longrightarrow>
      dict_get (fst (extract_note note_text patient_id note_id note_date note_type (before @ m # after))) ''histology''
        = normalize_histology (VStr (if m_label m \<noteq> ''HISTOLOGY_TEXT'' then m_text m else m_sent_text m)))
   \<and> (m_label m = ''STAGE_GENERIC'' \<and> truthy (dict_get (phenos st) ''stage_path'')
      \<and> truthy (dict_get (phenos st) ''stage_clinical'') \<longrightarrow>
      phenos (ent_step c m st) = phenos st)"
proof (intro conjI impI)
  define cx where "cx = \<lparr>c_text = clean_text note_text, c_patient_id = patient_id, c_note_id = note_id,
               c_note_date = note_date, c_note_type = note_type\<rparr>"
  note fin = extract_note_loop_field[where c = cx and ents = "before @ m # after", OF _ _ _ cx_def]
  show "dict_get (fst (extract_note note_text patient_id note_id note_date note_type (before @ m # after))) ''er_status''
        = VStr (if m_label m = ''ER_POS'' then ''Positive'' else ''Negative'')"
    if h: "m_label m \<in> {''ER_POS'', ''ER_NEG''} \<and> (\<forall>m'\<in>set after. m_label m' \<notin> {''ER_POS'', ''ER_NEG''})"
  proof (rule fin)
    show "phenos (ents_loop cx (before @ m # after) (initial_state cx)) ''er_status''
        = Some (VStr (if m_label m = ''ER_POS'' then ''Positive'' else ''Negative''))"
      by (rule loop_last_writer[where w = "\<lambda>m. if m_label m = ''ER_POS'' then Some (VStr ''Positive'')
            else if m_label m = ''ER_NEG'' then Some (VStr ''Negative'') else None"])
         (use h in \<open>auto simp: step_er_status\<close>)
  qed simp_all
  show "dict_get (fst (extract_note note_text patient_id note_id note_date note_type (before @ m # after))) ''pr_status''
        = VStr (if m_label m = ''PR_POS'' then ''Positive'' else ''Negative'')"
    if h: "m_label m \<in> {''PR_POS'', ''PR_NEG''} \<and> (\<forall>m'\<in>set after. m_label m' \<notin> {''PR_POS'', ''PR_NEG''})"
  proof (rule fin)
    show "phenos (ents_loop cx (before @ m # after) (initial_state cx)) ''pr_status''
        = Some (VStr (if m_label m = ''PR_POS'' then ''Positive'' else ''Negative''))"
      by (rule loop_last_writer[where w = "\<lambda>m. if m_label m = ''PR_POS'' then Some (VStr ''Positive'')
            else if m_label m = ''PR_NEG'' then Some (VStr ''Negative'') else None"])
         (use h in \<open>auto simp: step_pr_status\<close>)
  qed simp_all
  show "dict_get (fst (extract_note note_text patient_id note_id note_date note_type (before @ m # after))) ''ki67_percent''
        = normalize_percent (VStr (m_text m))"
    if h: "m_label m = ''KI67'' \<and> normalize_percent (VStr (m_text m)) \<noteq> VNone
      \<and> (\<forall>m'\<in>set after. m_label m' = ''KI67'' \<longrightarrow> normalize_percent (VStr (m_text m')) = VNone)"
  proof (rule fin)
    show "phenos (ents_loop cx (before @ m # after) (initial_state cx)) ''ki67_percent''
        = Some (normalize_percent (VStr (m_text m)))"
      by (rule loop_last_writer[where w = "\<lambda>m. if m_label m = ''KI67'' \<and> normalize_percent (VStr (m_text m)) \<noteq> VNone
            then Some (normalize_percent (VStr (m_text m))) else None"])
         (use h in \<open>auto simp: step_ki67_percent\<close>)
  qed (use h in simp_all)
  show "dict_get (fst (extract_note note_text patient_id note_id note_date note_type (before @ m # after))) ''grade''
        = normalize_grade (VStr (m_sent_text m))"
    if h: "m_label m = ''GRADE'' \<and> truthy (normalize_grade (VStr (m_sent_text m)))
      \<and> (\<forall>m'\<in>set after. m_label m' = ''GRADE'' \<longrightarrow> \<not> truthy (normalize_grade (VStr (m_sent_text m'))))"
  proof (rule fin)
    show "phenos (ents_loop cx (before @ m # after) (initial_state cx)) ''grade''
        = Some (normalize_grade (VStr (m_sent_text m)))"
      by (rule loop_last_writer[where w = "\<lambda>m. if m_label m = ''GRADE'' \<and> truthy (normalize_grade (VStr (m_sent_text m)))
            then Some (normalize_grade (VStr (m_sent_text m))) else None"])
         (use h in \<open>auto simp: step_grade\<close>)
    show "normalize_grade (VStr (m_sent_text m)) \<noteq> VNone" using h by auto
  qed simp
  show "dict_get (fst (extract_note note_text patient_id note_id note_date note_type (before @ m # after))) ''histology''
        = normalize_histology (VStr (if m_label m \<noteq> ''HISTOLOGY_TEXT'' then m_text m else m_sent_text m))"
    if h: "startswith (m_label m) ''HISTOLOGY_''
      \<and> truthy (normalize_histology (VStr (if m_label m \<noteq> ''HISTOLOGY_TEXT'' then m_text m else m_sent_text m)))
      \<and> (\<forall>m'\<in>set after. startswith (m_label m') ''HISTOLOGY_'' \<longrightarrow>
            \<not> truthy (normalize_histology (VStr (if m_label m' \<noteq> ''HISTOLOGY_TEXT'' then m_text m' else m_sent_text m'))))"
  proof (rule fin)
    let ?hist = "\<lambda>m. normalize_histology (VStr (if m_label m \<noteq> ''HISTOLOGY_TEXT'' then m_text m else m_sent_text m))"
    show "phenos (ents_loop cx (before @ m # after) (initial_state cx)) ''histology'' = Some (?hist m)"
      by (rule loop_last_writer[where w = "\<lambda>m. if startswith (m_label m) ''HISTOLOGY_'' \<and> truthy (?hist m)
            then Some (?hist m) else None"])
         (use h in \<open>auto simp: step_histology\<close>)
    show "?hist m \<noteq> VNone" using h by auto
  qed simp
  show "phenos (ent_step c m st) = phenos st"
    if "m_label m = ''STAGE_GENERIC'' \<and> truthy (dict_get (phenos st) ''stage_path'')
      \<and> truthy (dict_get (phenos st) ''stage_clinical'')"
    using that by (intro step_stage_generic_full) simp_all
qed

theorem last_mention_wins_witness:
  "dict_get (fst (extract_note ''ER- ER+'' ''P1'' ''N1'' VNone (VStr ''Pathology'')
      [example_mention ''ER_NEG'' ''ER-'', example_mention ''ER_POS'' ''ER+'', example_mention ''GRADE'' ''grade 2''])) ''er_status''
     = VStr ''Positive''
   \<and> dict_get (fst (extract_note ''Ki-67 10%. Ki-67 35%.'' ''P1'' ''N1'' VNone (VStr ''Pathology'')
      [example_mention ''KI67'' ''10%'', example_mention ''KI67'' ''35%'', example_mention ''KI67'' ''n/a''])) ''ki67_percent''
     = VInt 35"
proof -
  have p: "normalize_percent (VStr ''35%'') = VInt 35" "normalize_percent (VStr ''n/a'') = VNone" by code_simp+
  let ?a = "example_mention ''ER_NEG'' ''ER-''" and ?b = "example_mention ''ER_POS'' ''ER+''"
  let ?g = "example_mention ''GRADE'' ''grade 2''"
  have h1: "m_label ?b \<in> {''ER_POS'', ''ER_NEG''} \<and> (\<forall>m'\<in>set [?g]. m_label m' \<notin> {''ER_POS'', ''ER_NEG''})"
    by simp
  let ?k1 = "example_mention ''KI67'' ''10%''" and ?k2 = "example_mention ''KI67'' ''35%''"
  let ?k3 = "example_mention ''KI67'' ''n/a''"
  have h2: "m_label ?k2 = ''KI67'' \<and> normalize_percent (VStr (m_text ?k2)) \<noteq> VNone
      \<and> (\<forall>m'\<in>set [?k3]. m_label m' = ''KI67'' \<longrightarrow> normalize_percent (VStr (m_text m')) = VNone)"
    by (simp add: p)
  from last_mention_wins[where m = ?b and after = "[?g]" and before = "[?a]" and note_text = "''ER- ER+''"
        and patient_id = "''P1''" and note_id = "''N1''" and note_date = VNone and note_type = "VStr ''Pathology''",
        THEN conjunct1, THEN mp, OF h1]
    last_mention_wins[where m = ?k2 and after = "[?k3]" and before = "[?k1]" and note_text = "''Ki-67 10%. Ki-67 35%.''"
        and patient_id = "''P1''" and note_id = "''N1''" and note_date = VNone and note_type = "VStr ''Pathology''",
        THEN conjunct2, THEN conjunct2, THEN conjunct1, THEN mp, OF h2]
  show ?thesis by (simp add: p)
qed

end
